theory Spec2Isabelle
  imports Main
begin

section \<open>Errors\<close>

text \<open>
  Every \<open>fmt.Errorf\<close> of the package is a constructor; the errors of the cryptographic
  capabilities and of the base64 decoder are carried through unchanged.
\<close>

datatype error =
    MissingHeader string           \<comment> \<open>\<open>missing header %q\<close>\<close>
  | RequestTargetNotPermitted      \<comment> \<open>\<open>cannot sign with "(request-target)" on anything other than an http request\<close>\<close>
  | MacPrivateKeyType              \<comment> \<open>\<open>private key for MAC signing must be of type []byte\<close>\<close>
  | MacPublicKeyType               \<comment> \<open>\<open>public key for MAC verifying must be of type []byte\<close>\<close>
  | NoCryptoImplementation string  \<comment> \<open>\<open>no crypto implementation available for %q\<close>\<close>
  | InvalidHttpSignature           \<comment> \<open>\<open>invalid http signature\<close>\<close>
  | SchemeAmbiguous                \<comment> \<open>\<open>both %q and %q have signature parameters\<close>\<close>
  | SchemeMissing                  \<comment> \<open>\<open>neither %q nor %q have signature parameters\<close>\<close>
  | MalformedParameter "string list"  \<comment> \<open>\<open>malformed http signature parameter: %v\<close>\<close>
  | MissingParameter string        \<comment> \<open>\<open>missing %q parameter in http signature\<close>\<close>
  | CorruptInput                   \<comment> \<open>\<open>base64.CorruptInputError\<close>\<close>
  | CapabilityError string         \<comment> \<open>an error returned by an algorithm implementation\<close>

section \<open>Go standard library functions used by the package\<close>

text \<open>
  A Go \<open>string\<close> is a sequence of bytes, here a \<open>char list\<close>. The library functions
  below are given on bytes: \<open>strings.ToLower\<close> and \<open>strings.TrimSpace\<close> act on the
  ASCII range (HTTP header names and values are ASCII); bytes above \<open>0x7F\<close>, which Go
  would decode as UTF-8, are left alone. The separators of \<open>strings.Split\<close> and
  \<open>strings.SplitN\<close> are one-byte constants everywhere in the package, so both take
  a byte.
\<close>

definition lowerByte :: "char \<Rightarrow> char" where
  "lowerByte c = (let n = (of_char c :: nat) in if 65 \<le> n \<and> n \<le> 90 then char_of (n + 32) else c)"

definition upperByte :: "char \<Rightarrow> char" where
  "upperByte c = (let n = (of_char c :: nat) in if 97 \<le> n \<and> n \<le> 122 then char_of (n - 32) else c)"

definition ToLower :: "string \<Rightarrow> string" where
  "ToLower s = map lowerByte s"

definition isSpace :: "char \<Rightarrow> bool" where
  \<comment> \<open>tab, line feed, vertical tab, form feed, carriage return, space\<close>
  "isSpace c = (let n = (of_char c :: nat) in (9 \<le> n \<and> n \<le> 13) \<or> n = 32)"

definition TrimSpace :: "string \<Rightarrow> string" where
  "TrimSpace s = rev (dropWhile isSpace (rev (dropWhile isSpace s)))"

definition Trim :: "string \<Rightarrow> string \<Rightarrow> string" where
  \<comment> \<open>\<open>strings.Trim(s, cutset)\<close>: all leading and trailing bytes of the cutset removed\<close>
  "Trim s cutset =
     rev (dropWhile (\<lambda>c. c \<in> set cutset) (rev (dropWhile (\<lambda>c. c \<in> set cutset) s)))"

fun HasPrefix :: "string \<Rightarrow> string \<Rightarrow> bool" where
  "HasPrefix s [] = True"
| "HasPrefix [] (p # ps) = False"
| "HasPrefix (c # cs) (p # ps) = (c = p \<and> HasPrefix cs ps)"

fun Contains :: "string \<Rightarrow> string \<Rightarrow> bool" where
  "Contains [] substr = (substr = [])"
| "Contains (c # cs) substr = (HasPrefix (c # cs) substr \<or> Contains cs substr)"

fun Split :: "string \<Rightarrow> char \<Rightarrow> string list" where
  \<comment> \<open>\<open>strings.Split(s, sep)\<close>; the empty string splits into one empty piece\<close>
  "Split [] sep = [[]]"
| "Split (c # cs) sep =
     (if c = sep then [] # Split cs sep
      else (case Split cs sep of [] \<Rightarrow> [[c]] | p # ps \<Rightarrow> (c # p) # ps))"

definition SplitN2 :: "string \<Rightarrow> char \<Rightarrow> string list" where
  \<comment> \<open>\<open>strings.SplitN(s, sep, 2)\<close>: cut at the first separator, if there is one\<close>
  "SplitN2 s sep =
     (if sep \<in> set s
      then [takeWhile (\<lambda>c. c \<noteq> sep) s, tl (dropWhile (\<lambda>c. c \<noteq> sep) s)]
      else [s])"

fun Join :: "string list \<Rightarrow> string \<Rightarrow> string" where
  \<comment> \<open>\<open>strings.Join(elems, sep)\<close>\<close>
  "Join [] sep = []"
| "Join [x] sep = x"
| "Join (x # y # ys) sep = x @ sep @ Join (y # ys) sep"

subsection \<open>net/textproto and net/http\<close>

definition validHeaderFieldByte :: "char \<Rightarrow> bool" where
  \<comment> \<open>the token bytes of RFC 7230: digits, letters and \<open>! # $ % & ' * + - . ^ _ ` | ~\<close>\<close>
  "validHeaderFieldByte c =
     (let n = (of_char c :: nat) in
        (48 \<le> n \<and> n \<le> 57) \<or> (65 \<le> n \<and> n \<le> 90) \<or> (97 \<le> n \<and> n \<le> 122) \<or>
        n \<in> set [33, 35, 36, 37, 38, 39, 42, 43, 45, 46, 94, 95, 96, 124, 126])"

fun canonicalize :: "bool \<Rightarrow> string \<Rightarrow> string" where
  \<comment> \<open>first letter upper case and upper case after each dash, the rest lower case\<close>
  "canonicalize upper [] = []"
| "canonicalize upper (c # cs) =
     (let c' = (if upper then upperByte c else lowerByte c)
      in c' # canonicalize (c' = CHR ''-'') cs)"

definition CanonicalMIMEHeaderKey :: "string \<Rightarrow> string" where
  \<comment> \<open>a key with a byte that is no token byte is returned unchanged\<close>
  "CanonicalMIMEHeaderKey s = (if list_all validHeaderFieldByte s then canonicalize True s else s)"

text \<open>
  \<open>http.Header\<close> is \<open>map[string][]string\<close>. The map is taken to be allocated, as it is
  in every request made by \<open>http.NewRequest\<close> or received by a server.
\<close>

type_synonym Header = "string \<rightharpoonup> string list"

definition Get :: "Header \<Rightarrow> string \<Rightarrow> string" where
  "Get h key =
     (case h (CanonicalMIMEHeaderKey key) of
        None \<Rightarrow> []
      | Some [] \<Rightarrow> []
      | Some (v # vs) \<Rightarrow> v)"

definition Add :: "Header \<Rightarrow> string \<Rightarrow> string \<Rightarrow> Header" where
  "Add h key v =
     (let k = CanonicalMIMEHeaderKey key
      in h(k \<mapsto> (case h k of None \<Rightarrow> [] | Some vs \<Rightarrow> vs) @ [v]))"

record request =
  Method :: string
  URL :: string   \<comment> \<open>the text that \<open>r.URL.String()\<close> returns\<close>
  Header :: Header

record response =
  ResponseHeader :: Header   \<comment> \<open>what \<open>r.Header()\<close> returns\<close>

subsection \<open>encoding/base64, the standard encoding with padding\<close>

definition encodeStd :: "nat \<Rightarrow> char" where
  \<comment> \<open>the alphabet \<open>A..Z a..z 0..9 + /\<close> by index\<close>
  "encodeStd n =
     (if n < 26 then char_of (n + 65)
      else if n < 52 then char_of (n + 71)
      else if n < 62 then char_of (n - 4)
      else if n = 62 then CHR ''+'' else CHR ''/'')"

definition decodeMap :: "char \<Rightarrow> nat option" where
  "decodeMap c =
     (let n = (of_char c :: nat) in
        if 65 \<le> n \<and> n \<le> 90 then Some (n - 65)
        else if 97 \<le> n \<and> n \<le> 122 then Some (n - 71)
        else if 48 \<le> n \<and> n \<le> 57 then Some (n + 4)
        else if n = 43 then Some 62
        else if n = 47 then Some 63
        else None)"

fun EncodeToString :: "string \<Rightarrow> string" where
  "EncodeToString (a # b # c # rest) =
     (let x = (of_char a :: nat); y = (of_char b :: nat); z = (of_char c :: nat)
      in encodeStd (x div 4) # encodeStd ((x mod 4) * 16 + y div 16) #
         encodeStd ((y mod 16) * 4 + z div 64) # encodeStd (z mod 64) # EncodeToString rest)"
| "EncodeToString [a, b] =
     (let x = (of_char a :: nat); y = (of_char b :: nat)
      in [encodeStd (x div 4), encodeStd ((x mod 4) * 16 + y div 16),
          encodeStd ((y mod 16) * 4), CHR ''=''])"
| "EncodeToString [a] =
     (let x = (of_char a :: nat)
      in [encodeStd (x div 4), encodeStd ((x mod 4) * 16), CHR ''='', CHR ''=''])"
| "EncodeToString [] = []"

fun decodeQuanta :: "string \<Rightarrow> error + string" where
  "decodeQuanta [] = Inr []"
| "decodeQuanta (a # b # c # d # rest) =
     (case (decodeMap a, decodeMap b) of
        (Some x, Some y) \<Rightarrow>
          if c = CHR ''='' then
            (if d = CHR ''='' \<and> rest = [] then Inr [char_of (x * 4 + y div 16)]
             else Inl CorruptInput)
          else
            (case decodeMap c of
               None \<Rightarrow> Inl CorruptInput
             | Some z \<Rightarrow>
                 if d = CHR ''='' then
                   (if rest = []
                    then Inr [char_of (x * 4 + y div 16), char_of ((y mod 16) * 16 + z div 4)]
                    else Inl CorruptInput)
                 else
                   (case decodeMap d of
                      None \<Rightarrow> Inl CorruptInput
                    | Some w \<Rightarrow>
                        (case decodeQuanta rest of
                           Inl e \<Rightarrow> Inl e
                         | Inr bs \<Rightarrow>
                             Inr (char_of (x * 4 + y div 16) #
                                  char_of ((y mod 16) * 16 + z div 4) #
                                  char_of ((z mod 4) * 64 + w) # bs))))
      | _ \<Rightarrow> Inl CorruptInput)"
| "decodeQuanta _ = Inl CorruptInput"

definition DecodeString :: "string \<Rightarrow> error + string" where
  \<comment> \<open>carriage returns and line feeds are skipped\<close>
  "DecodeString s = decodeQuanta (filter (\<lambda>c. c \<noteq> CHR 0x0D \<and> c \<noteq> CHR 0x0A) s)"

section \<open>signing.go\<close>

subsection \<open>Constants\<close>

definition keyIdParameter :: string where "keyIdParameter = ''keyId''"
definition algorithmParameter :: string where "algorithmParameter = ''algorithm''"
definition headersParameter :: string where "headersParameter = ''headers''"
definition signatureParameter :: string where "signatureParameter = ''signature''"
definition parameterKVSeparater :: char where "parameterKVSeparater = CHR ''=''"
definition parameterValueDelimiter :: string where "parameterValueDelimiter = [CHR 0x22]"
definition parameterSeparater :: char where "parameterSeparater = CHR '',''"
definition headerParameterValueDelim :: char where "headerParameterValueDelim = CHR '' ''"
definition RequestTarget :: string where "RequestTarget = ''(request-target)''"
definition dateHeader :: string where "dateHeader = ''date''"
definition headerFieldDelimiter :: string where "headerFieldDelimiter = '': ''"
definition headersDelimiter :: string where "headersDelimiter = [CHR 0x0A]"
definition headerValueDelimiter :: string where "headerValueDelimiter = '', ''"
definition requestTargetSeparator :: string where "requestTargetSeparator = '' ''"

definition defaultHeaders :: "string list" where
  "defaultHeaders = [dateHeader]"

subsection \<open>The request-target providers\<close>

text \<open>
  Both providers have the Go type \<open>func(b bytes.Buffer) error\<close>: the buffer is passed by
  value, so the callee writes to its own copy of the \<open>bytes.Buffer\<close> struct and the
  caller's buffer keeps its length and contents. A provider is modelled as a function from
  the buffer it is given to the pair of its own copy after the call and the error it
  returns; the caller receives the error only.
\<close>

type_synonym requestTargetFn = "string \<Rightarrow> string \<times> error option"

definition requestTargetNotPermitted :: requestTargetFn where
  "requestTargetNotPermitted b = (b, Some RequestTargetNotPermitted)"

definition addRequestTarget :: "request \<Rightarrow> requestTargetFn" where
  "addRequestTarget r b =
     (let b = b @ RequestTarget;
          b = b @ headerFieldDelimiter;
          b = b @ ToLower (Method r);
          b = b @ requestTargetSeparator;
          b = b @ URL r
      in (b, None))"

subsection \<open>signatureString\<close>

fun writeValues :: "string list \<Rightarrow> nat \<Rightarrow> nat \<Rightarrow> string \<Rightarrow> string" where
  \<comment> \<open>\<open>for i, v := range hv\<close>, with \<open>len\<close> the length of \<open>hv\<close> and \<open>i\<close> the index\<close>
  "writeValues [] len i b = b"
| "writeValues (v # vs) len i b =
     (let b = b @ TrimSpace v;
          b = (if int i < int len - 1 then b @ headerValueDelimiter else b)
      in writeValues vs len (i + 1) b)"

fun signatureStringLoop ::
  "Header \<Rightarrow> requestTargetFn \<Rightarrow> string list \<Rightarrow> nat \<Rightarrow> nat \<Rightarrow> string \<Rightarrow> error + string" where
  \<comment> \<open>\<open>for n, i := range include\<close>, with \<open>len\<close> the length of \<open>include\<close>\<close>
  "signatureStringLoop values requestTargetFn [] len n b = Inr b"
| "signatureStringLoop values requestTargetFn (i0 # rest) len n b =
     (let i = ToLower i0 in
      if i = RequestTarget then
        (case snd (requestTargetFn b) of
           Some err \<Rightarrow> Inl err
         | None \<Rightarrow>
             signatureStringLoop values requestTargetFn rest len (n + 1)
               (if int n < int len - 1 then b @ headersDelimiter else b))
      else
        (case values (CanonicalMIMEHeaderKey i) of
           None \<Rightarrow> Inl (MissingHeader i)
         | Some hv \<Rightarrow>
             (let b = b @ i;
                  b = b @ headerFieldDelimiter;
                  b = writeValues hv (length hv) 0 b
              in signatureStringLoop values requestTargetFn rest len (n + 1)
                   (if int n < int len - 1 then b @ headersDelimiter else b))))"

definition signatureString ::
  "Header \<Rightarrow> string list \<Rightarrow> requestTargetFn \<Rightarrow> error + string" where
  "signatureString values include requestTargetFn =
     (let include = (if length include = 0 then defaultHeaders else include)
      in signatureStringLoop values requestTargetFn include (length include) 0 [])"

subsection \<open>Keys and cryptographic capabilities\<close>

text \<open>
  \<open>crypto.PrivateKey\<close> and \<open>crypto.PublicKey\<close> are the empty interface: a key is a byte
  slice (\<open>[]byte\<close>) or a value of some other dynamic type.
\<close>

datatype key = Bytes string | OtherKey nat

text \<open>
  Modelled from the spec: the interfaces \<open>macer\<close> and \<open>signer\<close> and the registry functions
  \<open>signerFromString\<close> and \<open>macerFromString\<close> are declared in a file that is not part of
  the sources. The shapes are those of the calls in \<open>signing.go\<close> and \<open>verifying.go\<close>
  and of the capability interfaces of the specification: a MAC provider signs data with a
  secret and compares a candidate with the expected code; an asymmetric signer signs with a
  random source and a private key and verifies with a public key; each has a name. The
  registry resolves a name to a capability or fails.
\<close>

record macer =
  macSign :: "string \<Rightarrow> string \<Rightarrow> error + string"            \<comment> \<open>\<open>Sign(sig, key []byte) ([]byte, error)\<close>\<close>
  macEqual :: "string \<Rightarrow> string \<Rightarrow> string \<Rightarrow> error + bool"    \<comment> \<open>\<open>Equal(sig, actualMAC, key []byte) (bool, error)\<close>\<close>
  macString :: string

record signer =
  sigSign :: "string \<Rightarrow> key \<Rightarrow> string \<Rightarrow> error + string"      \<comment> \<open>\<open>Sign(rand, p, sig) ([]byte, error)\<close>\<close>
  sigVerify :: "key \<Rightarrow> string \<Rightarrow> string \<Rightarrow> error option"     \<comment> \<open>\<open>Verify(pub, toHash, signature) error\<close>\<close>
  sigString :: string

record registry =
  signerFromString :: "string \<Rightarrow> error + signer"
  macerFromString :: "string \<Rightarrow> error + macer"

subsection \<open>setSignatureHeader\<close>

fun writeHeaders :: "string list \<Rightarrow> nat \<Rightarrow> nat \<Rightarrow> string \<Rightarrow> string" where
  \<comment> \<open>\<open>for i, h := range headers\<close>, with \<open>len\<close> the length of \<open>headers\<close>\<close>
  "writeHeaders [] len i b = b"
| "writeHeaders (h # hs) len i b =
     (let b = b @ ToLower h;
          b = (if int i \<noteq> int len - 1 then b @ [headerParameterValueDelim] else b)
      in writeHeaders hs len (i + 1) b)"

definition setSignatureHeader ::
  "Header \<Rightarrow> string \<Rightarrow> string \<Rightarrow> string \<Rightarrow> string \<Rightarrow> string list \<Rightarrow> Header" where
  "setSignatureHeader h targetHeader pubKeyId algo enc headers =
     (let headers = (if length headers = 0 then defaultHeaders else headers);
          b = [];
          \<comment> \<open>KeyId\<close>
          b = b @ keyIdParameter;
          b = b @ [parameterKVSeparater];
          b = b @ parameterValueDelimiter;
          b = b @ pubKeyId;
          b = b @ parameterValueDelimiter;
          b = b @ [parameterSeparater];
          \<comment> \<open>Algorithm (deprecated)\<close>
          b = b @ algorithmParameter;
          b = b @ [parameterKVSeparater];
          b = b @ parameterValueDelimiter;
          b = b @ algo;
          b = b @ parameterValueDelimiter;
          b = b @ [parameterSeparater];
          \<comment> \<open>Headers\<close>
          b = b @ headersParameter;
          b = b @ [parameterKVSeparater];
          b = b @ parameterValueDelimiter;
          b = writeHeaders headers (length headers) 0 b;
          b = b @ parameterValueDelimiter;
          b = b @ [parameterSeparater];
          \<comment> \<open>Signature\<close>
          b = b @ signatureParameter;
          b = b @ [parameterKVSeparater];
          b = b @ parameterValueDelimiter;
          b = b @ enc;
          b = b @ parameterValueDelimiter
      in Add h targetHeader b)"

subsection \<open>macSigner\<close>

text \<open>
  The fields of the two signer structs and of the verifier carry a prefix, since the
  structs share field names. A method that mutates the message returns the error, if any,
  together with the message after the call.
\<close>

record macSigner =
  mac_m :: macer
  mac_headers :: "string list"
  mac_targetHeader :: string

definition macSigner_signSignature :: "macSigner \<Rightarrow> key \<Rightarrow> string \<Rightarrow> error + string" where
  "macSigner_signSignature m pKey s =
     (case pKey of
        OtherKey _ \<Rightarrow> Inl MacPrivateKeyType
      | Bytes pKeyBytes \<Rightarrow>
          (case macSign (mac_m m) s pKeyBytes of
             Inl err \<Rightarrow> Inl err
           | Inr sig \<Rightarrow> Inr (EncodeToString sig)))"

definition macSigner_signatureString :: "macSigner \<Rightarrow> request \<Rightarrow> error + string" where
  "macSigner_signatureString m r =
     signatureString (Header r) (mac_headers m) (addRequestTarget r)"

definition macSigner_signatureStringResponse :: "macSigner \<Rightarrow> response \<Rightarrow> error + string" where
  "macSigner_signatureStringResponse m r =
     signatureString (ResponseHeader r) (mac_headers m) requestTargetNotPermitted"

definition macSigner_SignRequest ::
  "macSigner \<Rightarrow> key \<Rightarrow> string \<Rightarrow> request \<Rightarrow> error option \<times> request" where
  "macSigner_SignRequest m pKey pubKeyId r =
     (case macSigner_signatureString m r of
        Inl err \<Rightarrow> (Some err, r)
      | Inr s \<Rightarrow>
          (case macSigner_signSignature m pKey s of
             Inl err \<Rightarrow> (Some err, r)
           | Inr enc \<Rightarrow>
               (None, r\<lparr>Header := setSignatureHeader (Header r) (mac_targetHeader m) pubKeyId
                                   (macString (mac_m m)) enc (mac_headers m)\<rparr>)))"

definition macSigner_SignResponse ::
  "macSigner \<Rightarrow> key \<Rightarrow> string \<Rightarrow> response \<Rightarrow> error option \<times> response" where
  "macSigner_SignResponse m pKey pubKeyId r =
     (case macSigner_signatureStringResponse m r of
        Inl err \<Rightarrow> (Some err, r)
      | Inr s \<Rightarrow>
          (case macSigner_signSignature m pKey s of
             Inl err \<Rightarrow> (Some err, r)
           | Inr enc \<Rightarrow>
               (None, r\<lparr>ResponseHeader := setSignatureHeader (ResponseHeader r)
                                   (mac_targetHeader m) pubKeyId
                                   (macString (mac_m m)) enc (mac_headers m)\<rparr>)))"

subsection \<open>asymmSigner\<close>

text \<open>
  \<open>rand.Reader\<close> is the process-wide random source; the bytes it delivers to one call are
  the argument \<open>rnd\<close>.
\<close>

record asymmSigner =
  asymm_s :: signer
  asymm_headers :: "string list"
  asymm_targetHeader :: string

definition asymmSigner_signSignature ::
  "asymmSigner \<Rightarrow> string \<Rightarrow> key \<Rightarrow> string \<Rightarrow> error + string" where
  "asymmSigner_signSignature a rnd pKey s =
     (case sigSign (asymm_s a) rnd pKey s of
        Inl err \<Rightarrow> Inl err
      | Inr sig \<Rightarrow> Inr (EncodeToString sig))"

definition asymmSigner_signatureString :: "asymmSigner \<Rightarrow> request \<Rightarrow> error + string" where
  "asymmSigner_signatureString a r =
     signatureString (Header r) (asymm_headers a) (addRequestTarget r)"

definition asymmSigner_signatureStringResponse :: "asymmSigner \<Rightarrow> response \<Rightarrow> error + string" where
  "asymmSigner_signatureStringResponse a r =
     signatureString (ResponseHeader r) (asymm_headers a) requestTargetNotPermitted"

definition asymmSigner_SignRequest ::
  "asymmSigner \<Rightarrow> string \<Rightarrow> key \<Rightarrow> string \<Rightarrow> request \<Rightarrow> error option \<times> request" where
  "asymmSigner_SignRequest a rnd pKey pubKeyId r =
     (case asymmSigner_signatureString a r of
        Inl err \<Rightarrow> (Some err, r)
      | Inr s \<Rightarrow>
          (case asymmSigner_signSignature a rnd pKey s of
             Inl err \<Rightarrow> (Some err, r)
           | Inr enc \<Rightarrow>
               (None, r\<lparr>Header := setSignatureHeader (Header r) (asymm_targetHeader a) pubKeyId
                                   (sigString (asymm_s a)) enc (asymm_headers a)\<rparr>)))"

definition asymmSigner_SignResponse ::
  "asymmSigner \<Rightarrow> string \<Rightarrow> key \<Rightarrow> string \<Rightarrow> response \<Rightarrow> error option \<times> response" where
  "asymmSigner_SignResponse a rnd pKey pubKeyId r =
     (case asymmSigner_signatureStringResponse a r of
        Inl err \<Rightarrow> (Some err, r)
      | Inr s \<Rightarrow>
          (case asymmSigner_signSignature a rnd pKey s of
             Inl err \<Rightarrow> (Some err, r)
           | Inr enc \<Rightarrow>
               (None, r\<lparr>ResponseHeader := setSignatureHeader (ResponseHeader r)
                                   (asymm_targetHeader a) pubKeyId
                                   (sigString (asymm_s a)) enc (asymm_headers a)\<rparr>)))"

section \<open>verifying.go\<close>

text \<open>
  Modelled from the spec: the names of the two candidate header slots (constants of type
  \<open>SignatureScheme\<close>, declared outside the sources): the dedicated signature header and
  the authorization-style header.
\<close>

definition Signature :: string where "Signature = ''Signature''"
definition Authorization :: string where "Authorization = ''Authorization''"

record verifier =
  v_header :: Header
  v_kId :: string
  v_signature :: string
  v_headers :: "string list"
  v_sigStringFn :: "Header \<Rightarrow> string list \<Rightarrow> error + string"

definition getSignatureScheme :: "Header \<Rightarrow> error + string" where
  "getSignatureScheme h =
     (let s = Get h Signature;
          sigHasAll = (Contains s keyIdParameter \<or> Contains s headersParameter \<or>
                       Contains s signatureParameter);
          a = Get h Authorization;
          authHasAll = (Contains a keyIdParameter \<or> Contains a headersParameter \<or>
                        Contains a signatureParameter)
      in if sigHasAll \<and> authHasAll then Inl SchemeAmbiguous
         else if \<not> sigHasAll \<and> \<not> authHasAll then Inl SchemeMissing
         else if sigHasAll then Inr s
         else Inr a)"

text \<open>
  The loop of \<open>getSignatureComponents\<close> over the parameter tokens, on the named results
  \<open>(kId, sig, headers)\<close>; a token without a separator returns the error at once.
\<close>

fun paramsLoop ::
  "string list \<Rightarrow> string \<times> string \<times> string list \<Rightarrow> error + string \<times> string \<times> string list" where
  "paramsLoop [] st = Inr st"
| "paramsLoop (p # ps) (kId, sig, headers) =
     (let kv = SplitN2 p parameterKVSeparater in
      if length kv \<noteq> 2 then Inl (MalformedParameter kv)
      else
        (let k = kv ! 0;
             v = Trim (kv ! 1) parameterValueDelimiter
         in if k = keyIdParameter then paramsLoop ps (v, sig, headers)
            else if k = algorithmParameter then paramsLoop ps (kId, sig, headers)
            else if k = headersParameter then
              paramsLoop ps (kId, sig, Split v headerParameterValueDelim)
            else if k = signatureParameter then paramsLoop ps (kId, v, headers)
            else paramsLoop ps (kId, sig, headers)))"

definition getSignatureComponents :: "string \<Rightarrow> error + string \<times> string \<times> string list" where
  "getSignatureComponents s =
     (let params = Split s parameterSeparater in
      case paramsLoop params ([], [], []) of
        Inl err \<Rightarrow> Inl err
      | Inr (kId, sig, headers) \<Rightarrow>
          if length kId = 0 then Inl (MissingParameter keyIdParameter)
          else if length sig = 0 then Inl (MissingParameter signatureParameter)
          else if length headers = 0 then Inr (kId, sig, defaultHeaders)
          else Inr (kId, sig, headers))"

definition newVerifier ::
  "Header \<Rightarrow> (Header \<Rightarrow> string list \<Rightarrow> error + string) \<Rightarrow> error + verifier" where
  "newVerifier h sigStringFn =
     (case getSignatureScheme h of
        Inl err \<Rightarrow> Inl err
      | Inr s \<Rightarrow>
          (case getSignatureComponents s of
             Inl err \<Rightarrow> Inl err
           | Inr (kId, sig, headers) \<Rightarrow>
               Inr \<lparr>v_header = h, v_kId = kId, v_signature = sig, v_headers = headers,
                     v_sigStringFn = sigStringFn\<rparr>))"

definition KeyId :: "verifier \<Rightarrow> string" where
  "KeyId v = v_kId v"

definition macVerify :: "verifier \<Rightarrow> macer \<Rightarrow> key \<Rightarrow> error option" where
  "macVerify v m pKey =
     (case pKey of
        OtherKey _ \<Rightarrow> Some MacPublicKeyType
      | Bytes key \<Rightarrow>
          (case v_sigStringFn v (v_header v) (v_headers v) of
             Inl err \<Rightarrow> Some err
           | Inr signature \<Rightarrow>
               (case DecodeString (v_signature v) of
                  Inl err \<Rightarrow> Some err
                | Inr actualMAC \<Rightarrow>
                    (case macEqual m signature actualMAC key of
                       Inl err \<Rightarrow> Some err
                     | Inr ok \<Rightarrow> if \<not> ok then Some InvalidHttpSignature else None))))"

definition asymmVerify :: "verifier \<Rightarrow> signer \<Rightarrow> key \<Rightarrow> error option" where
  "asymmVerify v s pKey =
     (case v_sigStringFn v (v_header v) (v_headers v) of
        Inl err \<Rightarrow> Some err
      | Inr toHash \<Rightarrow>
          (case DecodeString (v_signature v) of
             Inl err \<Rightarrow> Some err
           | Inr signature \<Rightarrow>
               (case sigVerify s pKey toHash signature of
                  Some err \<Rightarrow> Some err
                | None \<Rightarrow> None)))"

definition Verify :: "registry \<Rightarrow> verifier \<Rightarrow> key \<Rightarrow> string \<Rightarrow> error option" where
  "Verify reg v pKey algo =
     (case signerFromString reg algo of
        Inr s \<Rightarrow> asymmVerify v s pKey
      | Inl _ \<Rightarrow>
          (case macerFromString reg algo of
             Inr m \<Rightarrow> macVerify v m pKey
           | Inl _ \<Rightarrow> Some (NoCryptoImplementation algo)))"

text \<open>
  Modelled from the spec: the exported constructor \<open>NewVerifier\<close> is declared outside the
  sources. A verifier is constructed from a message and a canonicalization capability, and
  it rebuilds the canonical string with the header list recovered from the parsed
  parameters; for a request the capability is \<open>signatureString\<close> with the request-target
  provider of that request.
\<close>

definition NewVerifier :: "request \<Rightarrow> error + verifier" where
  "NewVerifier r =
     newVerifier (Header r) (\<lambda>h toInclude. signatureString h toInclude (addRequestTarget r))"

section \<open>Example capabilities and messages\<close>

text \<open>
  A keyed code and a key-pair scheme that are small enough to evaluate. Both satisfy the
  law that verifying what was signed succeeds; neither is meant to be secure.
\<close>

definition exampleMacer :: macer where
  "exampleMacer =
     \<lparr>macSign = (\<lambda>data k. Inr (CHR ''#'' # k @ rev data)),
      macEqual = (\<lambda>data actualMAC k. Inr (actualMAC = CHR ''#'' # k @ rev data)),
      macString = ''example-mac''\<rparr>"

definition exampleSigner :: signer where
  "exampleSigner =
     \<lparr>sigSign = (\<lambda>rnd p data.
        case p of OtherKey n \<Rightarrow> Inr (char_of n # rev data)
                | Bytes _ \<Rightarrow> Inl (CapabilityError ''unsupported key'')),
      sigVerify = (\<lambda>pub toHash signature.
        case pub of OtherKey n \<Rightarrow>
                      if signature = char_of n # rev toHash then None
                      else Some (CapabilityError ''verification error'')
                  | Bytes _ \<Rightarrow> Some (CapabilityError ''unsupported key'')),
      sigString = ''example-sig''\<rparr>"

definition exampleRegistry :: registry where
  "exampleRegistry =
     \<lparr>signerFromString = (\<lambda>name.
        if name = ''example-sig'' then Inr exampleSigner
        else Inl (NoCryptoImplementation name)),
      macerFromString = (\<lambda>name.
        if name = ''example-mac'' then Inr exampleMacer
        else Inl (NoCryptoImplementation name))\<rparr>"

definition exampleMacSigner :: macSigner where
  "exampleMacSigner =
     \<lparr>mac_m = exampleMacer, mac_headers = [''(request-target)'', ''date''],
      mac_targetHeader = ''Signature''\<rparr>"

definition exampleAsymmSigner :: asymmSigner where
  "exampleAsymmSigner =
     \<lparr>asymm_s = exampleSigner, asymm_headers = [''(request-target)'', ''date''],
      asymm_targetHeader = ''Signature''\<rparr>"

definition exampleRequest :: request where
  "exampleRequest =
     \<lparr>Method = ''GET'', URL = ''/foo'',
      Header = [''Date'' \<mapsto> [''Tue, 07 Jun 2014 20:51:35 GMT'']]\<rparr>"

definition exampleParameters :: string where
  \<open>exampleParameters =
     ''keyId="key-1",algorithm="example-mac",headers="date",signature="c2VjcmV0"''\<close>

definition exampleTwoParameters :: string where
  \<open>exampleTwoParameters = ''keyId="a",signature="b"''\<close>



definition exampleEmptyHeaders :: string where
  \<open>exampleEmptyHeaders = ''keyId="a",signature="b",headers=""''\<close>

definition exampleSignedRequest :: request where
  \<comment> \<open>the example request with an earlier signature header\<close>
  "exampleSignedRequest =
     exampleRequest\<lparr>Header := (Header exampleRequest)(''Signature'' \<mapsto> [exampleParameters])\<rparr>"

section \<open>Bytes, header keys and joined lists\<close>

lemma of_char_lowerByte:
  "(of_char (lowerByte c) :: nat) =
     (if 65 \<le> (of_char c :: nat) \<and> (of_char c :: nat) \<le> 90 then of_char c + 32 else of_char c)"
  by (simp add: lowerByte_def Let_def)

lemma of_char_lt: "(of_char c :: nat) < 256"
  by (rule order_less_le_trans[OF _ order_refl]) (simp add: of_char_def)

lemma of_char_upperByte:
  "(of_char (upperByte c) :: nat) =
     (if 97 \<le> (of_char c :: nat) \<and> (of_char c :: nat) \<le> 122 then of_char c - 32 else of_char c)"
  by (auto simp: upperByte_def Let_def intro!: mod_less less_imp_diff_less of_char_lt)

lemma char_eq_iff: "(c = d) \<longleftrightarrow> ((of_char c :: nat) = of_char d)"
  by simp

lemma lowerByte_idem: "lowerByte (lowerByte c) = lowerByte c"
  unfolding char_eq_iff[of "lowerByte (lowerByte c)"] by (simp add: of_char_lowerByte)

lemma upperByte_lowerByte: "upperByte (lowerByte c) = upperByte c"
  unfolding char_eq_iff[of "upperByte (lowerByte c)"]
  by (simp add: of_char_lowerByte of_char_upperByte)

lemma valid_lowerByte: "validHeaderFieldByte (lowerByte c) = validHeaderFieldByte c"
  unfolding validHeaderFieldByte_def Let_def
  by (auto simp add: of_char_lowerByte)

lemma ToLower_idem: "ToLower (ToLower s) = ToLower s"
  by (simp add: ToLower_def lowerByte_idem)

lemma canonicalize_lower: "canonicalize u (map lowerByte s) = canonicalize u s"
  by (induction s arbitrary: u) (simp_all add: Let_def upperByte_lowerByte lowerByte_idem)

lemma CanonicalMIMEHeaderKey_ToLower:
  "list_all validHeaderFieldByte k \<Longrightarrow>
   CanonicalMIMEHeaderKey (ToLower k) = CanonicalMIMEHeaderKey k"
  by (simp add: CanonicalMIMEHeaderKey_def ToLower_def canonicalize_lower list_all_iff
      valid_lowerByte)

text \<open>
  Where every key of a header map is the canonical form of a field name made of token bytes,
  looking an identifier up under the canonical form of its lower-case spelling finds the
  key that equals it up to case.
\<close>

lemma canonical_lookup_case_insensitive:
  assumes "list_all validHeaderFieldByte k" and "CanonicalMIMEHeaderKey k = k"
    and "ToLower i = ToLower k"
  shows "CanonicalMIMEHeaderKey (ToLower i) = k"
  using assms CanonicalMIMEHeaderKey_ToLower[of k] by simp



lemma Join_Cons: "xs \<noteq> [] \<Longrightarrow> Join (x # xs) sep = x @ sep @ Join xs sep"
  by (cases xs) simp_all

section \<open>The loops of signing.go\<close>

lemma writeValues_eq:
  "i + length vs = len \<Longrightarrow> writeValues vs len i b = b @ Join (map TrimSpace vs) '', ''"
proof (induction vs arbitrary: i b)
  case Nil
  then show ?case by simp
next
  case (Cons v vs)
  show ?case
  proof (cases "vs = []")
    case True
    with Cons.prems show ?thesis by (simp add: Let_def)
  next
    case False
    have lt: "int i < int len - 1" using False Cons.prems by (cases vs) auto
    have "Suc i + length vs = len" using Cons.prems by simp
    from Cons.IH[OF this] False lt show ?thesis
      by (simp add: Let_def Join_Cons headerValueDelimiter_def)
  qed
qed

lemma writeHeaders_eq:
  "i + length hs = len \<Longrightarrow> writeHeaders hs len i b = b @ Join (map ToLower hs) '' ''"
proof (induction hs arbitrary: i b)
  case Nil
  then show ?case by simp
next
  case (Cons h hs)
  show ?case
  proof (cases "hs = []")
    case True
    with Cons.prems show ?thesis by (simp add: Let_def)
  next
    case False
    have ne: "int i \<noteq> int len - 1" using False Cons.prems by (cases hs) auto
    have "Suc i + length hs = len" using Cons.prems by simp
    from Cons.IH[OF this] False ne show ?thesis
      by (simp add: Let_def Join_Cons headerParameterValueDelim_def)
  qed
qed

lemma signatureStringLoop_present:
  assumes "n + length inc = len"
    and "\<forall>i \<in> set inc. ToLower i \<noteq> ''(request-target)''"
    and "\<forall>i \<in> set inc. values (CanonicalMIMEHeaderKey (ToLower i)) = Some (occ i)"
  shows "signatureStringLoop values f inc len n b =
     Inr (b @ Join (map (\<lambda>i. ToLower i @ '': '' @ Join (map TrimSpace (occ i)) '', '') inc)
                [CHR 0x0A])"
  using assms
proof (induction inc arbitrary: n b)
  case Nil
  then show ?case by simp
next
  case (Cons i inc)
  have n: "Suc n + length inc = len" using Cons.prems(1) by simp
  have r: "\<forall>i \<in> set inc. ToLower i \<noteq> ''(request-target)''" using Cons.prems(2) by simp
  have p: "\<forall>i \<in> set inc. values (CanonicalMIMEHeaderKey (ToLower i)) = Some (occ i)"
    using Cons.prems(3) by simp
  have i1: "ToLower i \<noteq> RequestTarget" using Cons.prems(2) by (simp add: RequestTarget_def)
  have i2: "values (CanonicalMIMEHeaderKey (ToLower i)) = Some (occ i)"
    using Cons.prems(3) by simp
  show ?case
  proof (cases "inc = []")
    case True
    with Cons.prems(1) i1 i2 show ?thesis
      by (simp add: Let_def writeValues_eq headerFieldDelimiter_def)
  next
    case False
    have lt: "int n < int len - 1" using False Cons.prems(1) by (cases inc) auto
    with False i1 i2 Cons.IH[OF n r p] show ?thesis
      by (simp add: Let_def writeValues_eq headerFieldDelimiter_def headersDelimiter_def
          Join_Cons)
  qed
qed

lemma signatureStringLoop_absent:
  assumes "\<forall>i \<in> set inc. ToLower i \<noteq> ''(request-target)''"
    and "\<exists>i \<in> set inc. values (CanonicalMIMEHeaderKey (ToLower i)) = None"
  shows "\<exists>i \<in> set inc. values (CanonicalMIMEHeaderKey (ToLower i)) = None \<and>
           signatureStringLoop values f inc len n b = Inl (MissingHeader (ToLower i))"
  using assms
proof (induction inc arbitrary: n b)
  case Nil
  then show ?case by simp
next
  case (Cons i inc)
  have i1: "ToLower i \<noteq> RequestTarget" using Cons.prems(1) by (simp add: RequestTarget_def)
  show ?case
  proof (cases "values (CanonicalMIMEHeaderKey (ToLower i))")
    case None
    with i1 show ?thesis by (simp add: Let_def)
  next
    case (Some hv)
    have r: "\<forall>i \<in> set inc. ToLower i \<noteq> ''(request-target)''" using Cons.prems(1) by simp
    have a: "\<exists>i \<in> set inc. values (CanonicalMIMEHeaderKey (ToLower i)) = None"
      using Cons.prems(2) Some by auto
    from Cons.IH[OF r a] i1 Some show ?thesis
      by (simp add: Let_def)
  qed
qed

text \<open>
  The loop sees a provider only through the error it returns: what the provider writes to
  its copy of the buffer is lost. So the canonical string of a request does not depend on
  the method or the target of the request.
\<close>

lemma signatureStringLoop_provider:
  "(\<And>b. snd (f b) = snd (g b)) \<Longrightarrow>
   signatureStringLoop values f inc len n b = signatureStringLoop values g inc len n b"
  by (induction inc arbitrary: n b) (auto simp: Let_def split: option.splits)

lemma addRequestTarget_no_error: "snd (addRequestTarget r b) = None"
  by (simp add: addRequestTarget_def Let_def)

lemma signatureString_ignores_request:
  "signatureString values include (addRequestTarget r1) =
   signatureString values include (addRequestTarget r2)"
  unfolding signatureString_def Let_def
  by (rule signatureStringLoop_provider) (simp add: addRequestTarget_no_error)

section \<open>Canonicalization\<close>

text \<open>
  Claim C1. Canonicalizing the component list \<open>["(request-target)", "date"]\<close> on a GET
  request to \<open>/foo\<close> with the header \<open>Date: Tue, 07 Jun 2014 20:51:35 GMT\<close> is claimed to
  give \<open>(request-target): get /foo\<close>, a line feed and the date line. The provider
  \<open>addRequestTarget\<close> receives the buffer by value, so the line it writes never reaches
  the buffer of \<open>signatureString\<close>: the result is the line feed followed by the date line
  alone, and differs from the claimed canonical string.
\<close>

theorem C1_request_target_line_dropped:
  "signatureString (Header exampleRequest) [''(request-target)'', ''date'']
       (addRequestTarget exampleRequest) =
     Inr (CHR 0x0A # ''date: Tue, 07 Jun 2014 20:51:35 GMT'') \<and>
   signatureString (Header exampleRequest) [''(request-target)'', ''date'']
       (addRequestTarget exampleRequest) \<noteq>
     Inr (''(request-target): get /foo'' @ CHR 0x0A # ''date: Tue, 07 Jun 2014 20:51:35 GMT'')"
  by code_simp

text \<open>
  Claim C3, as stated, fails: a header stored under a key that is not in canonical form
  (here the lower-case key \<open>date\<close>) is present in the header source, even with the same
  spelling as the identifier, and canonicalization still reports it missing, because the
  lookup goes through \<open>CanonicalMIMEHeaderKey\<close>.
\<close>

theorem C3_noncanonical_key_counterexample:
  "[''date'' \<mapsto> [''x'']] ''date'' = Some [''x''] \<and>
   signatureString [''date'' \<mapsto> [''x'']] [''date''] (addRequestTarget exampleRequest) =
     Inl (MissingHeader ''date'')"
  by code_simp

text \<open>
  Claim C3, amended. For every non-empty component list of real header identifiers, each
  present in the header source under the canonical MIME form of its lower-case spelling
  (with occurrences \<open>occ i\<close>), the canonical string is the lines
  \<open><lowercased-identifier>: <value>\<close> joined with a line feed and no trailing line feed,
  where the value is all occurrences, each trimmed of surrounding whitespace, joined with
  a comma and a space in occurrence order. If some listed identifier has no entry under that
  key, canonicalization fails with the missing-header error of such an identifier.
\<close>

theorem C3_canonical_string_of_headers:
  "(include \<noteq> [] \<and>
    (\<forall>i \<in> set include. ToLower i \<noteq> ''(request-target)'') \<and>
    (\<forall>i \<in> set include. values (CanonicalMIMEHeaderKey (ToLower i)) = Some (occ i))
    \<longrightarrow> signatureString values include f =
          Inr (Join (map (\<lambda>i. ToLower i @ '': '' @ Join (map TrimSpace (occ i)) '', '') include)
                 [CHR 0x0A])) \<and>
   (include \<noteq> [] \<and>
    (\<forall>i \<in> set include. ToLower i \<noteq> ''(request-target)'') \<and>
    (\<exists>i \<in> set include. values (CanonicalMIMEHeaderKey (ToLower i)) = None)
    \<longrightarrow> (\<exists>i \<in> set include. values (CanonicalMIMEHeaderKey (ToLower i)) = None \<and>
           signatureString values include f = Inl (MissingHeader (ToLower i))))"
proof (intro conjI impI)
  assume a: "include \<noteq> [] \<and>
    (\<forall>i \<in> set include. ToLower i \<noteq> ''(request-target)'') \<and>
    (\<forall>i \<in> set include. values (CanonicalMIMEHeaderKey (ToLower i)) = Some (occ i))"
  then have "signatureStringLoop values f include (length include) 0 [] =
     Inr ([] @ Join (map (\<lambda>i. ToLower i @ '': '' @ Join (map TrimSpace (occ i)) '', '') include)
                 [CHR 0x0A])"
    by (intro signatureStringLoop_present) auto
  with a show "signatureString values include f =
          Inr (Join (map (\<lambda>i. ToLower i @ '': '' @ Join (map TrimSpace (occ i)) '', '') include)
                 [CHR 0x0A])"
    by (simp add: signatureString_def)
next
  assume a: "include \<noteq> [] \<and>
    (\<forall>i \<in> set include. ToLower i \<noteq> ''(request-target)'') \<and>
    (\<exists>i \<in> set include. values (CanonicalMIMEHeaderKey (ToLower i)) = None)"
  then have "\<exists>i \<in> set include. values (CanonicalMIMEHeaderKey (ToLower i)) = None \<and>
           signatureStringLoop values f include (length include) 0 [] =
             Inl (MissingHeader (ToLower i))"
    by (intro signatureStringLoop_absent) auto
  with a show "\<exists>i \<in> set include. values (CanonicalMIMEHeaderKey (ToLower i)) = None \<and>
           signatureString values include f = Inl (MissingHeader (ToLower i))"
    by (simp add: signatureString_def)
qed

theorem C3_canonical_string_of_headers_witness:
  "signatureString [''Date'' \<mapsto> ['' a '', ''b''], ''X-Foo'' \<mapsto> [''c'']] [''X-FOO'', ''date'']
       requestTargetNotPermitted =
     Inr (''x-foo: c'' @ CHR 0x0A # ''date: a, b'') \<and>
   signatureString [''Date'' \<mapsto> ['' a '', ''b''], ''X-Foo'' \<mapsto> [''c'']] [''date'', ''host'']
       requestTargetNotPermitted =
     Inl (MissingHeader ''host'')"
proof
  let ?hdr = "[''Date'' \<mapsto> ['' a '', ''b''], ''X-Foo'' \<mapsto> [''c'']]"
  let ?occ = "\<lambda>i. if ToLower i = ''date'' then ['' a '', ''b''] else [''c'']"
  have h1: "[''X-FOO'', ''date''] \<noteq> []" by simp
  have h2: "\<forall>i \<in> set [''X-FOO'', ''date'']. ToLower i \<noteq> ''(request-target)''" by code_simp
  have h3: "\<forall>i \<in> set [''X-FOO'', ''date''].
              ?hdr (CanonicalMIMEHeaderKey (ToLower i)) = Some (?occ i)" by code_simp
  have "signatureString ?hdr [''X-FOO'', ''date''] requestTargetNotPermitted =
          Inr (Join (map (\<lambda>i. ToLower i @ '': '' @ Join (map TrimSpace (?occ i)) '', '')
                 [''X-FOO'', ''date'']) [CHR 0x0A])"
    using C3_canonical_string_of_headers
            [of "[''X-FOO'', ''date'']" ?hdr ?occ requestTargetNotPermitted]
      h1 h2 h3 by blast
  also have "Join (map (\<lambda>i. ToLower i @ '': '' @ Join (map TrimSpace (?occ i)) '', '')
                 [''X-FOO'', ''date'']) [CHR 0x0A] = ''x-foo: c'' @ CHR 0x0A # ''date: a, b''"
    by code_simp
  finally show "signatureString ?hdr [''X-FOO'', ''date''] requestTargetNotPermitted =
     Inr (''x-foo: c'' @ CHR 0x0A # ''date: a, b'')" .
next
  let ?hdr = "[''Date'' \<mapsto> ['' a '', ''b''], ''X-Foo'' \<mapsto> [''c'']]"
  have g1: "[''date'', ''host''] \<noteq> []" by simp
  have g2: "\<forall>i \<in> set [''date'', ''host'']. ToLower i \<noteq> ''(request-target)''" by code_simp
  have g3: "\<exists>i \<in> set [''date'', ''host'']. ?hdr (CanonicalMIMEHeaderKey (ToLower i)) = None"
    by code_simp
  have g4: "?hdr (CanonicalMIMEHeaderKey (ToLower ''date'')) \<noteq> None" by code_simp
  have g5: "ToLower ''host'' = ''host''" by code_simp
  have "\<exists>i \<in> set [''date'', ''host'']. ?hdr (CanonicalMIMEHeaderKey (ToLower i)) = None \<and>
           signatureString ?hdr [''date'', ''host''] requestTargetNotPermitted =
             Inl (MissingHeader (ToLower i))"
    using C3_canonical_string_of_headers
            [of "[''date'', ''host'']" ?hdr _ requestTargetNotPermitted]
      g1 g2 g3 by blast
  with g4 g5 show "signatureString ?hdr [''date'', ''host''] requestTargetNotPermitted =
     Inl (MissingHeader ''host'')"
    by auto
qed

section \<open>Locating and parsing the signature header\<close>

lemma HasPrefix_iff: "HasPrefix s p \<longleftrightarrow> (\<exists>post. s = p @ post)"
  by (induction s p rule: HasPrefix.induct) auto

text \<open>\<open>Contains\<close> decides whether the second string occurs in the first.\<close>

lemma Contains_iff: "Contains s sub \<longleftrightarrow> (\<exists>pre post. s = pre @ sub @ post)"
proof (induction s)
  case Nil
  then show ?case by auto
next
  case (Cons c cs)
  show ?case
  proof
    assume "Contains (c # cs) sub"
    then consider "HasPrefix (c # cs) sub" | "Contains cs sub" by auto
    then show "\<exists>pre post. c # cs = pre @ sub @ post"
    proof cases
      case 1
      then obtain post where "c # cs = sub @ post" by (auto simp: HasPrefix_iff)
      then have "c # cs = [] @ sub @ post" by simp
      then show ?thesis by blast
    next
      case 2
      then obtain pre post where "cs = pre @ sub @ post" using Cons.IH by blast
      then have "c # cs = (c # pre) @ sub @ post" by simp
      then show ?thesis by blast
    qed
  next
    assume "\<exists>pre post. c # cs = pre @ sub @ post"
    then obtain pre post where e: "c # cs = pre @ sub @ post" by blast
    show "Contains (c # cs) sub"
    proof (cases pre)
      case Nil
      with e have "HasPrefix (c # cs) sub" by (auto simp: HasPrefix_iff)
      then show ?thesis by simp
    next
      case (Cons a pre')
      with e have "cs = pre' @ sub @ post" by simp
      then have "Contains cs sub" using Cons.IH by blast
      then show ?thesis by simp
    qed
  qed
qed

lemma SplitN2_no_sep: "sep \<notin> set p \<Longrightarrow> SplitN2 p sep = [p]"
  by (simp add: SplitN2_def)

lemma SplitN2_sep: "sep \<in> set p \<Longrightarrow>
  SplitN2 p sep = [takeWhile (\<lambda>c. c \<noteq> sep) p, tl (dropWhile (\<lambda>c. c \<noteq> sep) p)]"
  by (simp add: SplitN2_def)

text \<open>
  One round of the loop on a token with a separator: the key is the text before the first
  \<open>=\<close>, the value the rest without its surrounding double quotes.
\<close>

lemma paramsLoop_step:
  assumes "CHR ''='' \<in> set p"
  shows "paramsLoop (p # ps) (kId, sig, headers) =
     (let k = takeWhile (\<lambda>c. c \<noteq> CHR ''='') p;
          v = Trim (tl (dropWhile (\<lambda>c. c \<noteq> CHR ''='') p)) [CHR 0x22]
      in if k = ''keyId'' then paramsLoop ps (v, sig, headers)
         else if k = ''headers'' then paramsLoop ps (kId, sig, Split v (CHR '' ''))
         else if k = ''signature'' then paramsLoop ps (kId, v, headers)
         else paramsLoop ps (kId, sig, headers))"
  using assms
  by (simp add: SplitN2_sep parameterKVSeparater_def Let_def keyIdParameter_def
      algorithmParameter_def headersParameter_def signatureParameter_def
      parameterValueDelimiter_def headerParameterValueDelim_def)

lemma paramsLoop_malformed:
  "\<exists>p \<in> set ps. CHR ''='' \<notin> set p \<Longrightarrow>
   \<exists>p \<in> set ps. CHR ''='' \<notin> set p \<and> paramsLoop ps st = Inl (MalformedParameter [p])"
proof (induction ps st rule: paramsLoop.induct)
  case (1 st)
  then show ?case by simp
next
  case (2 p ps kId sig headers)
  show ?case
  proof (cases "CHR ''='' \<in> set p")
    case False
    then show ?thesis
      by (simp add: SplitN2_no_sep parameterKVSeparater_def)
  next
    case True
    with "2.prems" have rest: "\<exists>p \<in> set ps. CHR ''='' \<notin> set p" by auto
    have kv: "SplitN2 p parameterKVSeparater =
       [takeWhile (\<lambda>c. c \<noteq> CHR ''='') p, tl (dropWhile (\<lambda>c. c \<noteq> CHR ''='') p)]"
      using True by (simp add: SplitN2_sep parameterKVSeparater_def)
    have len: "\<not> length (SplitN2 p parameterKVSeparater) \<noteq> 2" using kv by simp
    note ih = "2.IH"[OF refl len refl refl]
    show ?thesis
      using ih rest unfolding paramsLoop.simps Let_def
      by (auto simp: kv split: if_splits)
  qed
qed

lemma paramsLoop_wellformed:
  "\<forall>p \<in> set ps. CHR ''='' \<in> set p \<Longrightarrow>
   \<exists>k g hs. paramsLoop ps (kId, sig, headers) = Inr (k, g, hs)"
proof (induction ps arbitrary: kId sig headers)
  case Nil
  then show ?case by simp
next
  case (Cons p ps)
  from Cons.prems have p: "CHR ''='' \<in> set p"
    and rest: "\<forall>p \<in> set ps. CHR ''='' \<in> set p" by auto
  show ?case unfolding paramsLoop_step[OF p] Let_def
    using Cons.IH[OF rest] by auto
qed

lemma paramsLoop_keeps_kId:
  "\<forall>p \<in> set ps. takeWhile (\<lambda>c. c \<noteq> CHR ''='') p \<noteq> ''keyId'' \<Longrightarrow>
   paramsLoop ps (kId, sig, headers) = Inr (kId', sig', headers') \<Longrightarrow> kId' = kId"
proof (induction ps arbitrary: kId sig headers)
  case Nil
  then show ?case by simp
next
  case (Cons p ps)
  show ?case
  proof (cases "CHR ''='' \<in> set p")
    case False
    with Cons.prems(2) show ?thesis
      by (simp add: SplitN2_no_sep parameterKVSeparater_def)
  next
    case True
    from Cons.prems(1) have k: "takeWhile (\<lambda>c. c \<noteq> CHR ''='') p \<noteq> ''keyId''"
      and rest: "\<forall>p \<in> set ps. takeWhile (\<lambda>c. c \<noteq> CHR ''='') p \<noteq> ''keyId''" by auto
    from Cons.prems(2) show ?thesis
      unfolding paramsLoop_step[OF True] Let_def using k Cons.IH[OF rest]
      by (auto split: if_splits)
  qed
qed

lemma paramsLoop_keeps_sig:
  "\<forall>p \<in> set ps. takeWhile (\<lambda>c. c \<noteq> CHR ''='') p \<noteq> ''signature'' \<Longrightarrow>
   paramsLoop ps (kId, sig, headers) = Inr (kId', sig', headers') \<Longrightarrow> sig' = sig"
proof (induction ps arbitrary: kId sig headers)
  case Nil
  then show ?case by simp
next
  case (Cons p ps)
  show ?case
  proof (cases "CHR ''='' \<in> set p")
    case False
    with Cons.prems(2) show ?thesis
      by (simp add: SplitN2_no_sep parameterKVSeparater_def)
  next
    case True
    from Cons.prems(1) have k: "takeWhile (\<lambda>c. c \<noteq> CHR ''='') p \<noteq> ''signature''"
      and rest: "\<forall>p \<in> set ps. takeWhile (\<lambda>c. c \<noteq> CHR ''='') p \<noteq> ''signature''" by auto
    from Cons.prems(2) show ?thesis
      unfolding paramsLoop_step[OF True] Let_def using k Cons.IH[OF rest]
      by (auto split: if_splits)
  qed
qed

lemma paramsLoop_keeps_headers:
  "\<forall>p \<in> set ps. takeWhile (\<lambda>c. c \<noteq> CHR ''='') p \<noteq> ''headers'' \<Longrightarrow>
   paramsLoop ps (kId, sig, headers) = Inr (kId', sig', headers') \<Longrightarrow> headers' = headers"
proof (induction ps arbitrary: kId sig headers)
  case Nil
  then show ?case by simp
next
  case (Cons p ps)
  show ?case
  proof (cases "CHR ''='' \<in> set p")
    case False
    with Cons.prems(2) show ?thesis
      by (simp add: SplitN2_no_sep parameterKVSeparater_def)
  next
    case True
    from Cons.prems(1) have k: "takeWhile (\<lambda>c. c \<noteq> CHR ''='') p \<noteq> ''headers''"
      and rest: "\<forall>p \<in> set ps. takeWhile (\<lambda>c. c \<noteq> CHR ''='') p \<noteq> ''headers''" by auto
    from Cons.prems(2) show ?thesis
      unfolding paramsLoop_step[OF True] Let_def using k Cons.IH[OF rest]
      by (auto split: if_splits)
  qed
qed

lemma getSignatureComponents_malformed:
  assumes "\<exists>p \<in> set (Split s (CHR '','')). CHR ''='' \<notin> set p"
  shows "\<exists>p \<in> set (Split s (CHR '','')). CHR ''='' \<notin> set p \<and>
           getSignatureComponents s = Inl (MalformedParameter [p])"
  using paramsLoop_malformed[OF assms, of "([], [], [])"]
  by (auto simp: getSignatureComponents_def parameterSeparater_def)

lemma getSignatureComponents_no_keyId:
  assumes wf: "\<forall>p \<in> set (Split s (CHR '','')). CHR ''='' \<in> set p"
    and no: "\<forall>p \<in> set (Split s (CHR '','')). takeWhile (\<lambda>c. c \<noteq> CHR ''='') p \<noteq> ''keyId''"
  shows "getSignatureComponents s = Inl (MissingParameter ''keyId'')"
proof -
  obtain kId sig headers
    where r: "paramsLoop (Split s (CHR '','')) ([], [], []) = Inr (kId, sig, headers)"
    using paramsLoop_wellformed[OF wf, of "[]" "[]" "[]"] by blast
  have "kId = []" using paramsLoop_keeps_kId[OF no r] .
  then show ?thesis using r
    by (simp add: getSignatureComponents_def parameterSeparater_def keyIdParameter_def)
qed

lemma getSignatureComponents_no_signature:
  assumes wf: "\<forall>p \<in> set (Split s (CHR '','')). CHR ''='' \<in> set p"
    and no: "\<forall>p \<in> set (Split s (CHR '','')).
               takeWhile (\<lambda>c. c \<noteq> CHR ''='') p \<noteq> ''signature''"
  shows "getSignatureComponents s = Inl (MissingParameter ''keyId'') \<or>
         getSignatureComponents s = Inl (MissingParameter ''signature'')"
proof -
  obtain kId sig headers
    where r: "paramsLoop (Split s (CHR '','')) ([], [], []) = Inr (kId, sig, headers)"
    using paramsLoop_wellformed[OF wf, of "[]" "[]" "[]"] by blast
  have "sig = []" using paramsLoop_keeps_sig[OF no r] .
  then show ?thesis using r
    by (simp add: getSignatureComponents_def parameterSeparater_def keyIdParameter_def
        signatureParameter_def)
qed

lemma getSignatureComponents_no_headers:
  assumes no: "\<forall>p \<in> set (Split s (CHR '','')).
                 takeWhile (\<lambda>c. c \<noteq> CHR ''='') p \<noteq> ''headers''"
    and ok: "getSignatureComponents s = Inr (kId, sig, headers)"
  shows "headers = [''date'']"
proof -
  from ok obtain k g hs
    where r: "paramsLoop (Split s (CHR '','')) ([], [], []) = Inr (k, g, hs)"
    by (auto simp: getSignatureComponents_def parameterSeparater_def split: sum.splits)
  have "hs = []" using paramsLoop_keeps_headers[OF no r] .
  then show ?thesis using r ok
    by (auto simp: getSignatureComponents_def parameterSeparater_def defaultHeaders_def
        dateHeader_def split: if_splits)
qed

text \<open>
  Claim C4. For every pair of values in the two header slots: if both contain one of the
  substrings \<open>keyId\<close>, \<open>headers\<close>, \<open>signature\<close>, locating the scheme fails with the
  ambiguity error; if neither does, it fails with the scheme-missing error; otherwise it
  returns the value of the one slot that carries them.
\<close>

theorem C4_scheme_location:
  "(let s = Get h Signature;
        a = Get h Authorization;
        carries = (\<lambda>x. Contains x ''keyId'' \<or> Contains x ''headers'' \<or> Contains x ''signature'')
    in (carries s \<and> carries a \<longrightarrow> getSignatureScheme h = Inl SchemeAmbiguous) \<and>
       (\<not> carries s \<and> \<not> carries a \<longrightarrow> getSignatureScheme h = Inl SchemeMissing) \<and>
       (carries s \<and> \<not> carries a \<longrightarrow> getSignatureScheme h = Inr s) \<and>
       (\<not> carries s \<and> carries a \<longrightarrow> getSignatureScheme h = Inr a))"
  by (simp add: getSignatureScheme_def Let_def keyIdParameter_def headersParameter_def
      signatureParameter_def)

theorem C4_scheme_location_witness:
  "getSignatureScheme [''Signature'' \<mapsto> [exampleParameters],
                       ''Authorization'' \<mapsto> [exampleParameters]] = Inl SchemeAmbiguous \<and>
   getSignatureScheme [''Authorization'' \<mapsto> [''Basic dXNlcjpwYXNz'']] = Inl SchemeMissing \<and>
   getSignatureScheme [''Signature'' \<mapsto> [exampleParameters],
                       ''Authorization'' \<mapsto> [''Basic dXNlcjpwYXNz'']] =
     Inr exampleParameters \<and>
   getSignatureScheme [''Authorization'' \<mapsto> [exampleParameters]] = Inr exampleParameters"
proof (intro conjI)
  let ?both = "[''Signature'' \<mapsto> [exampleParameters], ''Authorization'' \<mapsto> [exampleParameters]]"
  let ?none = "[''Authorization'' \<mapsto> [''Basic dXNlcjpwYXNz'']]"
  let ?sig = "[''Signature'' \<mapsto> [exampleParameters],
               ''Authorization'' \<mapsto> [''Basic dXNlcjpwYXNz'']]"
  let ?auth = "[''Authorization'' \<mapsto> [exampleParameters]]"
  have p: "Contains exampleParameters ''keyId''" by code_simp
  have b: "\<not> (Contains ''Basic dXNlcjpwYXNz'' ''keyId'' \<or>
               Contains ''Basic dXNlcjpwYXNz'' ''headers'' \<or>
               Contains ''Basic dXNlcjpwYXNz'' ''signature'')" by code_simp
  have e: "\<not> (Contains [] ''keyId'' \<or> Contains [] ''headers'' \<or> Contains [] ''signature'')"
    by code_simp
  have g1: "Get ?both Signature = exampleParameters" "Get ?both Authorization = exampleParameters"
    by code_simp+
  have g2: "Get ?none Signature = []" "Get ?none Authorization = ''Basic dXNlcjpwYXNz''"
    by code_simp+
  have g3: "Get ?sig Signature = exampleParameters" "Get ?sig Authorization = ''Basic dXNlcjpwYXNz''"
    by code_simp+
  have g4: "Get ?auth Signature = []" "Get ?auth Authorization = exampleParameters"
    by code_simp+
  show "getSignatureScheme ?both = Inl SchemeAmbiguous"
    using C4_scheme_location[of ?both] p unfolding Let_def g1 by blast
  show "getSignatureScheme ?none = Inl SchemeMissing"
    using C4_scheme_location[of ?none] b e unfolding Let_def g2 by blast
  show "getSignatureScheme ?sig = Inr exampleParameters"
    using C4_scheme_location[of ?sig] p b unfolding Let_def g3 by blast
  show "getSignatureScheme ?auth = Inr exampleParameters"
    using C4_scheme_location[of ?auth] p e unfolding Let_def g4 by blast
qed

text \<open>
  Claim C5. Parsing a signature header value fails with the malformed-parameter error if
  some comma-separated token has no \<open>=\<close> to split it into a key and a value (the value may
  itself contain \<open>=\<close>: the token is cut at the first one). When every token has one,
  parsing fails with the missing-parameter error if no token has the key \<open>keyId\<close>, or none
  has the key \<open>signature\<close>. When parsing succeeds and no token has the key \<open>headers\<close>, the
  signed-headers list is \<open>["date"]\<close>.
\<close>

theorem C5_parameter_errors_and_default:
  "((\<exists>p \<in> set (Split s (CHR '','')). CHR ''='' \<notin> set p) \<longrightarrow>
      (\<exists>p \<in> set (Split s (CHR '','')). CHR ''='' \<notin> set p \<and>
         getSignatureComponents s = Inl (MalformedParameter [p]))) \<and>
   ((\<forall>p \<in> set (Split s (CHR '','')). CHR ''='' \<in> set p) \<and>
    (\<forall>p \<in> set (Split s (CHR '','')). takeWhile (\<lambda>c. c \<noteq> CHR ''='') p \<noteq> ''keyId'') \<longrightarrow>
      getSignatureComponents s = Inl (MissingParameter ''keyId'')) \<and>
   ((\<forall>p \<in> set (Split s (CHR '','')). CHR ''='' \<in> set p) \<and>
    (\<forall>p \<in> set (Split s (CHR '','')). takeWhile (\<lambda>c. c \<noteq> CHR ''='') p \<noteq> ''signature'') \<longrightarrow>
      getSignatureComponents s = Inl (MissingParameter ''keyId'') \<or>
      getSignatureComponents s = Inl (MissingParameter ''signature'')) \<and>
   ((\<forall>p \<in> set (Split s (CHR '','')). takeWhile (\<lambda>c. c \<noteq> CHR ''='') p \<noteq> ''headers'') \<and>
    getSignatureComponents s = Inr (kId, sig, hs) \<longrightarrow> hs = [''date''])"
  using getSignatureComponents_malformed[of s] getSignatureComponents_no_keyId[of s]
    getSignatureComponents_no_signature[of s] getSignatureComponents_no_headers[of s kId sig hs]
  by blast

theorem C5_parameter_errors_and_default_witness:
  "getSignatureComponents ''keyId=k,signature'' = Inl (MalformedParameter [''signature'']) \<and>
   getSignatureComponents ''signature=c2ln'' = Inl (MissingParameter ''keyId'') \<and>
   getSignatureComponents ''keyId=k,algorithm=a'' = Inl (MissingParameter ''signature'') \<and>
   getSignatureComponents ''keyId=k,signature=c2ln'' = Inr (''k'', ''c2ln'', [''date''])"
proof (intro conjI)
  have s1: "Split ''keyId=k,signature'' (CHR '','') = [''keyId=k'', ''signature'']" by code_simp
  have "\<exists>p \<in> set (Split ''keyId=k,signature'' (CHR '','')). CHR ''='' \<notin> set p \<and>
         getSignatureComponents ''keyId=k,signature'' = Inl (MalformedParameter [p])"
    using C5_parameter_errors_and_default[of "''keyId=k,signature''"] unfolding s1 by simp
  then show "getSignatureComponents ''keyId=k,signature'' = Inl (MalformedParameter [''signature''])"
    unfolding s1 by auto
next
  have s2: "Split ''signature=c2ln'' (CHR '','') = [''signature=c2ln'']" by code_simp
  show "getSignatureComponents ''signature=c2ln'' = Inl (MissingParameter ''keyId'')"
    using C5_parameter_errors_and_default[of "''signature=c2ln''"] unfolding s2 by simp
next
  have s3: "Split ''keyId=k,algorithm=a'' (CHR '','') = [''keyId=k'', ''algorithm=a'']" by code_simp
  have n: "getSignatureComponents ''keyId=k,algorithm=a'' \<noteq> Inl (MissingParameter ''keyId'')"
    by code_simp
  have "getSignatureComponents ''keyId=k,algorithm=a'' = Inl (MissingParameter ''keyId'') \<or>
        getSignatureComponents ''keyId=k,algorithm=a'' = Inl (MissingParameter ''signature'')"
    using C5_parameter_errors_and_default[of "''keyId=k,algorithm=a''"] unfolding s3 by simp
  with n show "getSignatureComponents ''keyId=k,algorithm=a'' = Inl (MissingParameter ''signature'')"
    by blast
next
  have s4: "Split ''keyId=k,signature=c2ln'' (CHR '','') = [''keyId=k'', ''signature=c2ln'']"
    by code_simp
  define hs where "hs = snd (snd (projr (getSignatureComponents ''keyId=k,signature=c2ln'')))"
  have r: "getSignatureComponents ''keyId=k,signature=c2ln'' = Inr (''k'', ''c2ln'', hs)"
    unfolding hs_def by code_simp
  have "hs = [''date'']"
    using C5_parameter_errors_and_default[of "''keyId=k,signature=c2ln''" "''k''" "''c2ln''" hs] r
    unfolding s4 by simp
  with r show "getSignatureComponents ''keyId=k,signature=c2ln'' = Inr (''k'', ''c2ln'', [''date''])"
    by simp
qed

lemma Split_nonempty: "Split s sep \<noteq> []"
  by (induction s) (auto split: list.splits)

lemma Split_no_sep: "sep \<notin> set a \<Longrightarrow> Split a sep = [a]"
  by (induction a) auto

lemma Split_append: "Split (a @ sep # b) sep = Split a sep @ Split b sep"
proof (induction a)
  case Nil
  show ?case by simp
next
  case (Cons c a)
  obtain p ps where s: "Split a sep = p # ps"
    using Split_nonempty[of a sep] by (cases "Split a sep") auto
  show ?case using Cons.IH s by simp
qed

lemma paramsLoop_append:
  "paramsLoop (xs @ ys) st =
     (case paramsLoop xs st of Inl e \<Rightarrow> Inl e | Inr st' \<Rightarrow> paramsLoop ys st')"
proof (induction xs st rule: paramsLoop.induct)
  case (1 st)
  show ?case by simp
next
  case (2 p ps kId sig headers)
  show ?case
  proof (cases "CHR ''='' \<in> set p")
    case False
    then show ?thesis by (simp add: SplitN2_no_sep parameterKVSeparater_def)
  next
    case True
    have kv: "SplitN2 p parameterKVSeparater =
       [takeWhile (\<lambda>c. c \<noteq> CHR ''='') p, tl (dropWhile (\<lambda>c. c \<noteq> CHR ''='') p)]"
      using True by (simp add: SplitN2_sep parameterKVSeparater_def)
    have len: "\<not> length (SplitN2 p parameterKVSeparater) \<noteq> 2" using kv by simp
    note ih = "2.IH"[OF refl len refl refl]
    show ?thesis
      using ih unfolding append_Cons paramsLoop.simps Let_def
      by (auto simp: kv split: if_splits)
  qed
qed





lemma paramsLoop_empty_headers_token:
  "paramsLoop [''headers='' @ [CHR 0x22, CHR 0x22]] (k, g, h) = Inr (k, g, [[]])"
proof -
  let ?p = "''headers='' @ [CHR 0x22, CHR 0x22]"
  have eq: "CHR ''='' \<in> set ?p" by simp
  have key: "takeWhile (\<lambda>c. c \<noteq> CHR ''='') ?p = ''headers''" by simp
  have val: "Trim (tl (dropWhile (\<lambda>c. c \<noteq> CHR ''='') ?p)) [CHR 0x22] = []"
    by (simp add: Trim_def)
  show ?thesis
    unfolding paramsLoop_step[OF eq] Let_def key val by simp
qed

lemma getSignatureComponents_empty_headers_last:
  assumes sp: "Split s (CHR '','') = pre @ [''headers='' @ [CHR 0x22, CHR 0x22]] @ post"
    and no: "\<forall>p \<in> set post. takeWhile (\<lambda>c. c \<noteq> CHR ''='') p \<noteq> ''headers''"
    and ok: "getSignatureComponents s = Inr (kId, sig, hs)"
  shows "hs = [[]]"
proof -
  let ?p = "''headers='' @ [CHR 0x22, CHR 0x22]"
  from ok obtain k g h
    where r: "paramsLoop (pre @ [?p] @ post) ([], [], []) = Inr (k, g, h)"
    unfolding getSignatureComponents_def Let_def parameterSeparater_def sp
    by (auto split: sum.splits)
  from r obtain k1 g1 h1 where r1: "paramsLoop pre ([], [], []) = Inr (k1, g1, h1)"
    and r2: "paramsLoop ([?p] @ post) (k1, g1, h1) = Inr (k, g, h)"
    unfolding paramsLoop_append[of pre] by (auto split: sum.splits)
  from r2 have r3: "paramsLoop post (k1, g1, [[]]) = Inr (k, g, h)"
    unfolding paramsLoop_append[of "[?p]"] paramsLoop_empty_headers_token by simp
  have h: "h = [[]]" using paramsLoop_keeps_headers[OF no r3] .
  from ok r h show "hs = [[]]"
    unfolding getSignatureComponents_def Let_def parameterSeparater_def sp
    by (auto split: if_splits)
qed

lemma getSignatureComponents_append_empty_headers:
  assumes ok: "getSignatureComponents s0 = Inr (kId0, sig0, hs0)"
  shows "getSignatureComponents (s0 @ '',headers='' @ [CHR 0x22, CHR 0x22]) =
           Inr (kId0, sig0, [[]])"
proof -
  let ?p = "''headers='' @ [CHR 0x22, CHR 0x22]"
  from ok obtain h where r: "paramsLoop (Split s0 (CHR '','')) ([], [], []) = Inr (kId0, sig0, h)"
    and k: "kId0 \<noteq> []" and g: "sig0 \<noteq> []"
    unfolding getSignatureComponents_def Let_def parameterSeparater_def
    by (auto split: sum.splits if_splits)
  have sp: "Split (s0 @ '',headers='' @ [CHR 0x22, CHR 0x22]) (CHR '','') =
              Split s0 (CHR '','') @ [?p]"
    using Split_append[of s0 "CHR '',''" ?p] by (simp add: Split_no_sep)
  show ?thesis
    unfolding getSignatureComponents_def Let_def parameterSeparater_def sp
      paramsLoop_append[of "Split s0 (CHR '','')"] r sum.case paramsLoop_empty_headers_token
    using k g by simp
qed

text \<open>
  Claim C10, as stated for any subsequent canonicalization, fails: the value with
  \<open>headers=""\<close> parses to the list \<open>[""]\<close>, and over a header source that holds an entry
  under the empty name the lookup of the empty identifier succeeds, so canonicalization
  returns the line \<open>: v\<close> instead of the missing-header error. The package looks header
  names up as they are and validates none of them.
\<close>

theorem C10_empty_name_entry_counterexample:
  "getSignatureComponents exampleEmptyHeaders = Inr (''a'', ''b'', [[]]) \<and>
   signatureString [[] \<mapsto> [''v'']] [[]] (addRequestTarget exampleRequest) = Inr '': v''"
  by code_simp

text \<open>
  Claim C10, amended. An explicitly empty \<open>headers\<close> parameter makes the signed-headers
  list the single empty identifier instead of the default \<open>["date"]\<close>: whenever parsing
  succeeds on a value whose last \<open>headers\<close> token is \<open>headers=""\<close>, the list is \<open>[""]\<close>;
  appending that token to a value that parses keeps the parse successful, with the list
  \<open>[""]\<close>; and canonicalization over that list fails with the missing-header error for
  the empty name, for every request-target provider and every header source that has no
  entry under the empty name.
\<close>

theorem C10_empty_headers_parameter:
  "(Split s (CHR '','') = pre @ [''headers='' @ [CHR 0x22, CHR 0x22]] @ post \<and>
    (\<forall>p \<in> set post. takeWhile (\<lambda>c. c \<noteq> CHR ''='') p \<noteq> ''headers'') \<and>
    getSignatureComponents s = Inr (kId, sig, hs)
    \<longrightarrow> hs = [[]] \<and> hs \<noteq> [''date'']) \<and>
   (getSignatureComponents s0 = Inr (kId0, sig0, hs0)
    \<longrightarrow> getSignatureComponents (s0 @ '',headers='' @ [CHR 0x22, CHR 0x22]) =
          Inr (kId0, sig0, [[]])) \<and>
   (values [] = None \<longrightarrow> signatureString values [[]] f = Inl (MissingHeader []))"
  using getSignatureComponents_empty_headers_last[of s pre post kId sig hs]
    getSignatureComponents_append_empty_headers[of s0 kId0 sig0 hs0]
  by (auto simp: signatureString_def ToLower_def RequestTarget_def CanonicalMIMEHeaderKey_def
      Let_def)

theorem C10_empty_headers_parameter_witness:
  "getSignatureComponents exampleTwoParameters = Inr (''a'', ''b'', [''date'']) \<and>
   exampleEmptyHeaders = exampleTwoParameters @ '',headers='' @ [CHR 0x22, CHR 0x22] \<and>
   getSignatureComponents exampleEmptyHeaders = Inr (''a'', ''b'', [[]]) \<and>
   Header exampleRequest [] = None \<and>
   signatureString (Header exampleRequest) [[]] (addRequestTarget exampleRequest) =
     Inl (MissingHeader [])"
proof -
  have p: "getSignatureComponents exampleTwoParameters = Inr (''a'', ''b'', [''date''])"
    by code_simp
  have e: "exampleEmptyHeaders = exampleTwoParameters @ '',headers='' @ [CHR 0x22, CHR 0x22]"
    by (simp add: exampleEmptyHeaders_def exampleTwoParameters_def)
  have n: "Header exampleRequest [] = None" by (simp add: exampleRequest_def)
  have r: "getSignatureComponents exampleEmptyHeaders = Inr (''a'', ''b'', [[]])"
    unfolding e
    using C10_empty_headers_parameter[of _ _ _ _ _ _ exampleTwoParameters "''a''" "''b''"
        "[''date'']"] p by blast
  have sp: "Split exampleEmptyHeaders (CHR '','') =
      Split exampleTwoParameters (CHR '','') @ [''headers='' @ [CHR 0x22, CHR 0x22]] @ []"
    by code_simp
  have "[[]] = [[]] \<and> [[]] \<noteq> [''date'']"
    using C10_empty_headers_parameter[of exampleEmptyHeaders
        "Split exampleTwoParameters (CHR '','')" "[]" "''a''" "''b''" "[[]]"] sp r
    by simp
  have c: "signatureString (Header exampleRequest) [[]] (addRequestTarget exampleRequest) =
     Inl (MissingHeader [])"
    using C10_empty_headers_parameter[of _ _ _ _ _ _ _ _ _ _ "Header exampleRequest"
        "addRequestTarget exampleRequest"] n by blast
  from p e r n c show ?thesis by blast
qed

section \<open>Signing\<close>




lemma setSignatureHeader_value:
  "headers \<noteq> [] \<Longrightarrow>
   setSignatureHeader h targetHeader pubKeyId algo enc headers =
     Add h targetHeader
       (''keyId='' @ [CHR 0x22] @ pubKeyId @ [CHR 0x22] @
        '',algorithm='' @ [CHR 0x22] @ algo @ [CHR 0x22] @
        '',headers='' @ [CHR 0x22] @ Join (map ToLower headers) '' '' @ [CHR 0x22] @
        '',signature='' @ [CHR 0x22] @ enc @ [CHR 0x22])"
  by (simp add: setSignatureHeader_def Let_def writeHeaders_eq keyIdParameter_def
      algorithmParameter_def headersParameter_def signatureParameter_def
      parameterKVSeparater_def parameterValueDelimiter_def parameterSeparater_def)





text \<open>
  Claim C7. For every key identifier, algorithm name, non-empty signed-headers list and
  encoded signature, the value added to the header is
  \<open>keyId="<keyId>",algorithm="<algorithm>",headers="<h1 h2 ...>",signature="<signature>"\<close>:
  the four parameters in this order, every value between double quotes, the header entries
  in lower case and joined with single spaces, the algorithm always there.
\<close>

theorem C7_serialized_parameters:
  "headers \<noteq> [] \<Longrightarrow>
   setSignatureHeader h targetHeader pubKeyId algo enc headers =
     Add h targetHeader
       (''keyId='' @ [CHR 0x22] @ pubKeyId @ [CHR 0x22] @
        '',algorithm='' @ [CHR 0x22] @ algo @ [CHR 0x22] @
        '',headers='' @ [CHR 0x22] @ Join (map ToLower headers) '' '' @ [CHR 0x22] @
        '',signature='' @ [CHR 0x22] @ enc @ [CHR 0x22])"
  by (rule setSignatureHeader_value)

theorem C7_serialized_parameters_witness:
  "Get (setSignatureHeader Map.empty ''Signature'' ''key-1'' ''example-mac'' ''c2VjcmV0''
          [''(request-target)'', ''Date'', ''X-Foo'']) ''Signature'' =
     ''keyId='' @ [CHR 0x22] @ ''key-1'' @ [CHR 0x22] @
     '',algorithm='' @ [CHR 0x22] @ ''example-mac'' @ [CHR 0x22] @
     '',headers='' @ [CHR 0x22] @ ''(request-target) date x-foo'' @ [CHR 0x22] @
     '',signature='' @ [CHR 0x22] @ ''c2VjcmV0'' @ [CHR 0x22]"
proof -
  have ne: "[''(request-target)'', ''Date'', ''X-Foo''] \<noteq> []" by simp
  have j: "Join (map ToLower [''(request-target)'', ''Date'', ''X-Foo'']) '' '' =
             ''(request-target) date x-foo''" by code_simp
  have c: "CanonicalMIMEHeaderKey ''Signature'' = ''Signature''" by code_simp
  show ?thesis
    unfolding C7_serialized_parameters[OF ne] j
    by (simp add: Get_def Add_def c)
qed

text \<open>
  Claim C8. Each of the four sign operations either succeeds, and then the message is the
  old one with exactly one value appended to the list under the canonical key of the
  signature-scheme header, every other entry and the earlier values under that key being
  as they were and in their order; or it returns an error and the message is unchanged.
\<close>

theorem C8_sign_all_or_nothing:
  "(case macSigner_SignRequest m pKey pubKeyId r of
      (None, r') \<Rightarrow>
        (\<exists>v. r' = r\<lparr>Header := (Header r)(CanonicalMIMEHeaderKey (mac_targetHeader m) \<mapsto>
                 (case Header r (CanonicalMIMEHeaderKey (mac_targetHeader m)) of
                    None \<Rightarrow> [] | Some vs \<Rightarrow> vs) @ [v])\<rparr>)
    | (Some err, r') \<Rightarrow> r' = r) \<and>
   (case macSigner_SignResponse m pKey pubKeyId w of
      (None, w') \<Rightarrow>
        (\<exists>v. w' = w\<lparr>ResponseHeader :=
                 (ResponseHeader w)(CanonicalMIMEHeaderKey (mac_targetHeader m) \<mapsto>
                 (case ResponseHeader w (CanonicalMIMEHeaderKey (mac_targetHeader m)) of
                    None \<Rightarrow> [] | Some vs \<Rightarrow> vs) @ [v])\<rparr>)
    | (Some err, w') \<Rightarrow> w' = w) \<and>
   (case asymmSigner_SignRequest a rnd pKey pubKeyId r of
      (None, r') \<Rightarrow>
        (\<exists>v. r' = r\<lparr>Header := (Header r)(CanonicalMIMEHeaderKey (asymm_targetHeader a) \<mapsto>
                 (case Header r (CanonicalMIMEHeaderKey (asymm_targetHeader a)) of
                    None \<Rightarrow> [] | Some vs \<Rightarrow> vs) @ [v])\<rparr>)
    | (Some err, r') \<Rightarrow> r' = r) \<and>
   (case asymmSigner_SignResponse a rnd pKey pubKeyId w of
      (None, w') \<Rightarrow>
        (\<exists>v. w' = w\<lparr>ResponseHeader :=
                 (ResponseHeader w)(CanonicalMIMEHeaderKey (asymm_targetHeader a) \<mapsto>
                 (case ResponseHeader w (CanonicalMIMEHeaderKey (asymm_targetHeader a)) of
                    None \<Rightarrow> [] | Some vs \<Rightarrow> vs) @ [v])\<rparr>)
    | (Some err, w') \<Rightarrow> w' = w)"
proof (intro conjI)
  show "case macSigner_SignRequest m pKey pubKeyId r of
      (None, r') \<Rightarrow>
        (\<exists>v. r' = r\<lparr>Header := (Header r)(CanonicalMIMEHeaderKey (mac_targetHeader m) \<mapsto>
                 (case Header r (CanonicalMIMEHeaderKey (mac_targetHeader m)) of
                    None \<Rightarrow> [] | Some vs \<Rightarrow> vs) @ [v])\<rparr>)
    | (Some err, r') \<Rightarrow> r' = r"
    by (auto simp: macSigner_SignRequest_def setSignatureHeader_def Add_def Let_def
        split: sum.splits)
  show "case macSigner_SignResponse m pKey pubKeyId w of
      (None, w') \<Rightarrow>
        (\<exists>v. w' = w\<lparr>ResponseHeader :=
                 (ResponseHeader w)(CanonicalMIMEHeaderKey (mac_targetHeader m) \<mapsto>
                 (case ResponseHeader w (CanonicalMIMEHeaderKey (mac_targetHeader m)) of
                    None \<Rightarrow> [] | Some vs \<Rightarrow> vs) @ [v])\<rparr>)
    | (Some err, w') \<Rightarrow> w' = w"
    by (auto simp: macSigner_SignResponse_def setSignatureHeader_def Add_def Let_def
        split: sum.splits)
  show "case asymmSigner_SignRequest a rnd pKey pubKeyId r of
      (None, r') \<Rightarrow>
        (\<exists>v. r' = r\<lparr>Header := (Header r)(CanonicalMIMEHeaderKey (asymm_targetHeader a) \<mapsto>
                 (case Header r (CanonicalMIMEHeaderKey (asymm_targetHeader a)) of
                    None \<Rightarrow> [] | Some vs \<Rightarrow> vs) @ [v])\<rparr>)
    | (Some err, r') \<Rightarrow> r' = r"
    by (auto simp: asymmSigner_SignRequest_def setSignatureHeader_def Add_def Let_def
        split: sum.splits)
  show "case asymmSigner_SignResponse a rnd pKey pubKeyId w of
      (None, w') \<Rightarrow>
        (\<exists>v. w' = w\<lparr>ResponseHeader :=
                 (ResponseHeader w)(CanonicalMIMEHeaderKey (asymm_targetHeader a) \<mapsto>
                 (case ResponseHeader w (CanonicalMIMEHeaderKey (asymm_targetHeader a)) of
                    None \<Rightarrow> [] | Some vs \<Rightarrow> vs) @ [v])\<rparr>)
    | (Some err, w') \<Rightarrow> w' = w"
    by (auto simp: asymmSigner_SignResponse_def setSignatureHeader_def Add_def Let_def
        split: sum.splits)
qed

theorem C8_sign_all_or_nothing_witness:
  "fst (macSigner_SignRequest exampleMacSigner (Bytes ''secret'') ''key-1'' exampleRequest) = None \<and>
   Header (snd (macSigner_SignRequest exampleMacSigner (Bytes ''secret'') ''key-1''
                  exampleRequest)) ''Date'' = Header exampleRequest ''Date'' \<and>
   (\<exists>v. Header (snd (macSigner_SignRequest exampleMacSigner (Bytes ''secret'') ''key-1''
                  exampleRequest)) ''Signature'' = Some [v]) \<and>
   macSigner_SignRequest exampleMacSigner (OtherKey 0) ''key-1'' exampleRequest =
     (Some MacPrivateKeyType, exampleRequest)"
proof (intro conjI)
  define res where
    "res = macSigner_SignRequest exampleMacSigner (Bytes ''secret'') ''key-1'' exampleRequest"
  have ok: "fst res = None" unfolding res_def by code_simp
  then show "fst (macSigner_SignRequest exampleMacSigner (Bytes ''secret'') ''key-1''
                    exampleRequest) = None"
    unfolding res_def .
  have c: "CanonicalMIMEHeaderKey (mac_targetHeader exampleMacSigner) = ''Signature''"
    by code_simp
  have old: "Header exampleRequest ''Signature'' = None" by (simp add: exampleRequest_def)
  obtain r' where r: "res = (None, r')" using ok by (cases res) auto
  have "\<exists>v. r' = exampleRequest\<lparr>Header := (Header exampleRequest)(''Signature'' \<mapsto> [v])\<rparr>"
    using C8_sign_all_or_nothing[where m = exampleMacSigner and pKey = "Bytes ''secret''"
        and pubKeyId = "''key-1''" and r = exampleRequest]
    unfolding res_def[symmetric] r c old by simp
  then obtain v
    where v: "r' = exampleRequest\<lparr>Header := (Header exampleRequest)(''Signature'' \<mapsto> [v])\<rparr>"
    by blast
  show "Header (snd (macSigner_SignRequest exampleMacSigner (Bytes ''secret'') ''key-1''
                  exampleRequest)) ''Date'' = Header exampleRequest ''Date''"
    unfolding res_def[symmetric] r v by simp
  show "\<exists>v. Header (snd (macSigner_SignRequest exampleMacSigner (Bytes ''secret'') ''key-1''
                  exampleRequest)) ''Signature'' = Some [v]"
    unfolding res_def[symmetric] r v by simp
  define bad where
    "bad = macSigner_SignRequest exampleMacSigner (OtherKey 0) ''key-1'' exampleRequest"
  have e: "fst bad = Some MacPrivateKeyType" unfolding bad_def by code_simp
  then obtain r'' where b: "bad = (Some MacPrivateKeyType, r'')" by (cases bad) auto
  have "r'' = exampleRequest"
    using C8_sign_all_or_nothing[where m = exampleMacSigner and pKey = "OtherKey 0"
        and pubKeyId = "''key-1''" and r = exampleRequest]
    unfolding bad_def[symmetric] b by simp
  with b show "macSigner_SignRequest exampleMacSigner (OtherKey 0) ''key-1'' exampleRequest =
     (Some MacPrivateKeyType, exampleRequest)"
    unfolding bad_def by simp
qed

section \<open>Round trip\<close>

lemma of_char_encodeStd:
  "n < 64 \<Longrightarrow> (of_char (encodeStd n) :: nat) =
     (if n < 26 then n + 65 else if n < 52 then n + 71 else if n < 62 then n - 4
      else if n = 62 then 43 else 47)"
  by (simp add: encodeStd_def)

lemma decodeMap_encodeStd: "n < 64 \<Longrightarrow> decodeMap (encodeStd n) = Some n"
  unfolding decodeMap_def Let_def by (auto simp add: of_char_encodeStd)

lemma encodeStd_not_special:
  "n < 64 \<Longrightarrow> (of_char (encodeStd n) :: nat) \<notin> {10, 13, 34, 44, 61}"
  by (auto simp add: of_char_encodeStd split: if_splits)

lemma b64_first: "y < 256 \<Longrightarrow> (x div 4) * 4 + ((x mod 4) * 16 + y div 16) div 16 = (x::nat)"
proof -
  assume "y < 256"
  then have "y div 16 < 16" by simp
  then have "((x mod 4) * 16 + y div 16) div 16 = x mod 4" by simp
  then show ?thesis by simp
qed

lemma b64_second:
  "y < 256 \<Longrightarrow> z < 256 \<Longrightarrow> (((x mod 4) * 16 + y div 16) mod 16) * 16 + ((y mod 16) * 4 + z div 64) div 4 = (y::nat)"
proof -
  assume y: "y < 256" and z: "z < 256"
  have a: "y div 16 < 16" using y by simp
  then have 1: "((x mod 4) * 16 + y div 16) mod 16 = y div 16" by simp
  have "z div 64 < 4" using z by simp
  then have 2: "((y mod 16) * 4 + z div 64) div 4 = y mod 16" by simp
  show ?thesis unfolding 1 2 by simp
qed

lemma b64_third: "z < 256 \<Longrightarrow> (((y mod 16) * 4 + z div 64) mod 4) * 64 + z mod 64 = (z::nat)"
proof -
  assume z: "z < 256"
  have "z div 64 < 4" using z by simp
  then have 1: "((y mod 16) * 4 + z div 64) mod 4 = z div 64" by simp
  show ?thesis unfolding 1 by simp
qed

lemma b64_pad2: "(x div 4) * 4 + ((x mod 4) * 16) div 16 = (x::nat)"
  by simp

lemma b64_pad1_second:
  "y < 256 \<Longrightarrow> (((x mod 4) * 16 + y div 16) mod 16) * 16 + ((y mod 16) * 4) div 4 = (y::nat)"
proof -
  assume y: "y < 256"
  have a: "y div 16 < 16" using y by simp
  then have 1: "((x mod 4) * 16 + y div 16) mod 16 = y div 16" by simp
  show ?thesis unfolding 1 by simp
qed

lemma sextet_bounds:
  "(x::nat) < 256 \<Longrightarrow> x div 4 < 64"
  "(y::nat) < 256 \<Longrightarrow> (x mod 4) * 16 + y div 16 < 64"
  "(z::nat) < 256 \<Longrightarrow> (y mod 16) * 4 + z div 64 < 64"
  "(z::nat) mod 64 < 64"
  "(x mod 4) * 16 < (64::nat)"
  "(y mod 16) * 4 < (64::nat)"
proof -
  show "x < 256 \<Longrightarrow> x div 4 < 64" by simp
  show "y < 256 \<Longrightarrow> (x mod 4) * 16 + y div 16 < 64"
  proof -
    assume "y < 256"
    then have "y div 16 < 16" by simp
    moreover have "x mod 4 < 4" by simp
    ultimately show ?thesis by linarith
  qed
  show "z < 256 \<Longrightarrow> (y mod 16) * 4 + z div 64 < 64"
  proof -
    assume "z < 256"
    then have "z div 64 < 4" by simp
    moreover have "y mod 16 < 16" by simp
    ultimately show ?thesis by linarith
  qed
  show "z mod 64 < 64" by simp
  have "x mod 4 < 4" by simp
  then show "(x mod 4) * 16 < 64" by linarith
  have "y mod 16 < 16" by simp
  then show "(y mod 16) * 4 < 64" by linarith
qed


lemma encodeStd_neq_pad: "n < 64 \<Longrightarrow> encodeStd n \<noteq> CHR ''=''"
proof
  assume n: "n < 64" and "encodeStd n = CHR ''=''"
  then have "(of_char (encodeStd n) :: nat) = 61" by simp
  with encodeStd_not_special[OF n] show False by simp
qed

lemma decodeQuanta_EncodeToString: "decodeQuanta (EncodeToString bs) = Inr bs"
proof (induction bs rule: EncodeToString.induct)
  case (1 a b c rest)
  define x y z where "x = (of_char a :: nat)" and "y = (of_char b :: nat)"
    and "z = (of_char c :: nat)"
  define s1 s2 s3 s4 where "s1 = x div 4" and "s2 = (x mod 4) * 16 + y div 16"
    and "s3 = (y mod 16) * 4 + z div 64" and "s4 = z mod 64"
  have lt: "x < 256" "y < 256" "z < 256" unfolding x_def y_def z_def by (rule of_char_lt)+
  have b: "s1 < 64" "s2 < 64" "s3 < 64" "s4 < 64"
    unfolding s1_def s2_def s3_def s4_def using lt by (simp_all add: sextet_bounds)
  have enc: "EncodeToString (a # b # c # rest) =
      encodeStd s1 # encodeStd s2 # encodeStd s3 # encodeStd s4 # EncodeToString rest"
    by (simp add: Let_def s1_def s2_def s3_def s4_def x_def y_def z_def)
  have ih: "decodeQuanta (EncodeToString rest) = Inr rest"
    using 1 by simp
  have b1: "char_of (s1 * 4 + s2 div 16) = a"
    unfolding s1_def s2_def using b64_first[OF lt(2), of x] by (simp add: x_def)
  have b2: "char_of ((s2 mod 16) * 16 + s3 div 4) = b"
    unfolding s2_def s3_def using b64_second[OF lt(2) lt(3), of x] by (simp add: y_def)
  have b3: "char_of ((s3 mod 4) * 64 + s4) = c"
    unfolding s3_def s4_def using b64_third[OF lt(3), of y] by (simp add: z_def)
  show ?case
    unfolding enc
    by (simp add: decodeMap_encodeStd b encodeStd_neq_pad ih b1 b2 b3)
next
  case (2 a b)
  define x y where "x = (of_char a :: nat)" and "y = (of_char b :: nat)"
  define s1 s2 s3 where "s1 = x div 4" and "s2 = (x mod 4) * 16 + y div 16"
    and "s3 = (y mod 16) * 4"
  have lt: "x < 256" "y < 256" unfolding x_def y_def by (rule of_char_lt)+
  have b: "s1 < 64" "s2 < 64" "s3 < 64"
    unfolding s1_def s2_def s3_def using lt by (simp_all add: sextet_bounds)
  have enc: "EncodeToString [a, b] = [encodeStd s1, encodeStd s2, encodeStd s3, CHR ''='']"
    by (simp add: Let_def s1_def s2_def s3_def x_def y_def)
  have b1: "char_of (s1 * 4 + s2 div 16) = a"
    unfolding s1_def s2_def using b64_first[OF lt(2), of x] by (simp add: x_def)
  have b2: "char_of ((s2 mod 16) * 16 + s3 div 4) = b"
    unfolding s2_def s3_def using b64_pad1_second[OF lt(2), of x] by (simp add: y_def)
  show ?case
    unfolding enc
    by (simp add: decodeMap_encodeStd b encodeStd_neq_pad b1 b2)
next
  case (3 a)
  define x where "x = (of_char a :: nat)"
  define s1 s2 where "s1 = x div 4" and "s2 = (x mod 4) * 16"
  have lt: "x < 256" unfolding x_def by (rule of_char_lt)
  have b: "s1 < 64" "s2 < 64"
    unfolding s1_def s2_def using lt by (simp_all add: sextet_bounds)
  have enc: "EncodeToString [a] = [encodeStd s1, encodeStd s2, CHR ''='', CHR ''='']"
    by (simp add: Let_def s1_def s2_def x_def)
  have b1: "char_of (s1 * 4 + s2 div 16) = a"
    unfolding s1_def s2_def using b64_pad2[of x] by (simp add: x_def)
  show ?case
    unfolding enc
    by (simp add: decodeMap_encodeStd b b1)
next
  case 4
  show ?case by simp
qed

lemma EncodeToString_quantum:
  "\<exists>s1 s2 s3 s4. s1 < 64 \<and> s2 < 64 \<and> s3 < 64 \<and> s4 < 64 \<and>
     EncodeToString (a # b # d # rest) =
       encodeStd s1 # encodeStd s2 # encodeStd s3 # encodeStd s4 # EncodeToString rest"
  "\<exists>s1 s2 s3. s1 < 64 \<and> s2 < 64 \<and> s3 < 64 \<and>
     EncodeToString [a, b] = [encodeStd s1, encodeStd s2, encodeStd s3, CHR ''='']"
  "\<exists>s1 s2. s1 < 64 \<and> s2 < 64 \<and>
     EncodeToString [a] = [encodeStd s1, encodeStd s2, CHR ''='', CHR ''='']"
proof -
  define x y z where "x = (of_char a :: nat)" and "y = (of_char b :: nat)"
    and "z = (of_char d :: nat)"
  have lt: "x < 256" "y < 256" "z < 256" unfolding x_def y_def z_def by (rule of_char_lt)+
  have b: "x div 4 < 64" "(x mod 4) * 16 + y div 16 < 64" "(y mod 16) * 4 + z div 64 < 64"
    "z mod 64 < 64" "(x mod 4) * 16 < 64" "(y mod 16) * 4 < 64"
    using lt by (simp_all add: sextet_bounds)
  have "EncodeToString (a # b # d # rest) =
       encodeStd (x div 4) # encodeStd ((x mod 4) * 16 + y div 16) #
       encodeStd ((y mod 16) * 4 + z div 64) # encodeStd (z mod 64) # EncodeToString rest"
    by (simp add: Let_def x_def y_def z_def)
  with b(1-4) show "\<exists>s1 s2 s3 s4. s1 < 64 \<and> s2 < 64 \<and> s3 < 64 \<and> s4 < 64 \<and>
     EncodeToString (a # b # d # rest) =
       encodeStd s1 # encodeStd s2 # encodeStd s3 # encodeStd s4 # EncodeToString rest"
    by blast
  have "EncodeToString [a, b] =
       [encodeStd (x div 4), encodeStd ((x mod 4) * 16 + y div 16),
        encodeStd ((y mod 16) * 4), CHR ''='']"
    by (simp add: Let_def x_def y_def)
  with b(1,2,6) show "\<exists>s1 s2 s3. s1 < 64 \<and> s2 < 64 \<and> s3 < 64 \<and>
     EncodeToString [a, b] = [encodeStd s1, encodeStd s2, encodeStd s3, CHR ''='']"
    by blast
  have "EncodeToString [a] = [encodeStd (x div 4), encodeStd ((x mod 4) * 16), CHR ''='', CHR ''='']"
    by (simp add: Let_def x_def)
  with b(1,5) show "\<exists>s1 s2. s1 < 64 \<and> s2 < 64 \<and>
     EncodeToString [a] = [encodeStd s1, encodeStd s2, CHR ''='', CHR ''='']"
    by blast
qed

lemma EncodeToString_alphabet:
  "c \<in> set (EncodeToString bs) \<Longrightarrow> (\<exists>n < 64. c = encodeStd n) \<or> c = CHR ''=''"
proof (induction bs rule: EncodeToString.induct)
  case (1 a b d rest)
  obtain s1 s2 s3 s4 where b: "s1 < 64" "s2 < 64" "s3 < 64" "s4 < 64"
    and e: "EncodeToString (a # b # d # rest) =
       encodeStd s1 # encodeStd s2 # encodeStd s3 # encodeStd s4 # EncodeToString rest"
    using EncodeToString_quantum(1)[of a b d rest] by blast
  from "1.prems" consider "c = encodeStd s1" | "c = encodeStd s2" | "c = encodeStd s3"
    | "c = encodeStd s4" | "c \<in> set (EncodeToString rest)"
    unfolding e by auto
  then show ?case
  proof cases
    case 5
    then show ?thesis using "1.IH" by blast
  qed (use b in blast)+
next
  case (2 a b)
  obtain s1 s2 s3 where b: "s1 < 64" "s2 < 64" "s3 < 64"
    and e: "EncodeToString [a, b] = [encodeStd s1, encodeStd s2, encodeStd s3, CHR ''='']"
    using EncodeToString_quantum(2)[of a b] by blast
  from "2.prems" consider "c = encodeStd s1" | "c = encodeStd s2" | "c = encodeStd s3"
    | "c = CHR ''=''"
    unfolding e by auto
  then show ?case
  proof cases
    case 4
    then show ?thesis by blast
  qed (use b in blast)+
next
  case (3 a)
  obtain s1 s2 where b: "s1 < 64" "s2 < 64"
    and e: "EncodeToString [a] = [encodeStd s1, encodeStd s2, CHR ''='', CHR ''='']"
    using EncodeToString_quantum(3)[of a] by blast
  from "3.prems" consider "c = encodeStd s1" | "c = encodeStd s2" | "c = CHR ''=''"
    unfolding e by auto
  then show ?case
  proof cases
    case 3
    then show ?thesis by blast
  qed (use b in blast)+
next
  case 4
  then show ?case by simp
qed

lemma EncodeToString_no_special:
  "CHR '','' \<notin> set (EncodeToString bs)" "CHR 0x22 \<notin> set (EncodeToString bs)"
  "CHR 0x0D \<notin> set (EncodeToString bs)" "CHR 0x0A \<notin> set (EncodeToString bs)"
proof -
  have k: "\<And>c. c \<in> set (EncodeToString bs) \<Longrightarrow> (of_char c :: nat) \<notin> {10, 13, 34, 44}"
  proof -
    fix c assume "c \<in> set (EncodeToString bs)"
    then consider n where "n < 64" "c = encodeStd n" | "c = CHR ''=''"
      using EncodeToString_alphabet by blast
    then show "(of_char c :: nat) \<notin> {10, 13, 34, 44}"
    proof cases
      case 1
      then show ?thesis using encodeStd_not_special[of n] by simp
    next
      case 2
      then show ?thesis by simp
    qed
  qed
  show "CHR '','' \<notin> set (EncodeToString bs)" using k[of "CHR '',''"] by auto
  show "CHR 0x22 \<notin> set (EncodeToString bs)" using k[of "CHR 0x22"] by auto
  show "CHR 0x0D \<notin> set (EncodeToString bs)" using k[of "CHR 0x0D"] by auto
  show "CHR 0x0A \<notin> set (EncodeToString bs)" using k[of "CHR 0x0A"] by auto
qed

lemma EncodeToString_nonempty: "bs \<noteq> [] \<Longrightarrow> EncodeToString bs \<noteq> []"
  by (induction bs rule: EncodeToString.induct) (simp_all add: Let_def)

lemma DecodeString_EncodeToString: "DecodeString (EncodeToString bs) = Inr bs"
proof -
  have "filter (\<lambda>c. c \<noteq> CHR 0x0D \<and> c \<noteq> CHR 0x0A) (EncodeToString bs) = EncodeToString bs"
    using EncodeToString_no_special(3,4)[of bs] by (auto simp: filter_id_conv)
  then show ?thesis by (simp add: DecodeString_def decodeQuanta_EncodeToString)
qed

lemma Trim_quoted:
  assumes "K = [] \<or> (hd K \<noteq> q \<and> last K \<noteq> q)"
  shows "Trim (q # K @ [q]) [q] = K"
proof (cases "K = []")
  case True
  then show ?thesis by (simp add: Trim_def)
next
  case False
  with assms have h: "hd K \<noteq> q" and l: "last K \<noteq> q" by auto
  from False h have 1: "dropWhile (\<lambda>c. c \<in> set [q]) (q # K @ [q]) = K @ [q]"
    by (cases K) auto
  from False l have 2: "dropWhile (\<lambda>c. c \<in> set [q]) (rev (K @ [q])) = rev K"
    by (cases K rule: rev_cases) auto
  show ?thesis unfolding Trim_def 1 2 by simp
qed

lemma Split_sep_first: "sep \<notin> set a \<Longrightarrow> Split (a @ sep # b) sep = a # Split b sep"
  by (simp add: Split_append Split_no_sep)

lemma set_Join: "set (Join xs sep) \<subseteq> \<Union> (set ` set xs) \<union> set sep"
  by (induction xs sep rule: Join.induct) auto

lemma Split_Join:
  "xs \<noteq> [] \<Longrightarrow> \<forall>x \<in> set xs. sep \<notin> set x \<Longrightarrow> Split (Join xs [sep]) sep = xs"
proof (induction xs "[sep]" rule: Join.induct)
  case 1
  then show ?case by simp
next
  case (2 x)
  then show ?case by (simp add: Split_no_sep)
next
  case (3 x y ys)
  then show ?case using Split_sep_first[of sep x "Join (y # ys) [sep]"] by simp
qed

lemma token_parts:
  assumes "CHR ''='' \<notin> set name"
  shows "takeWhile (\<lambda>c. c \<noteq> CHR ''='') (name @ CHR ''='' # v) = name"
    and "tl (dropWhile (\<lambda>c. c \<noteq> CHR ''='') (name @ CHR ''='' # v)) = v"
    and "CHR ''='' \<in> set (name @ CHR ''='' # v)"
  using assms by (induction name) auto

lemma no_quote_Trim:
  assumes "q \<notin> set H"
  shows "Trim (q # H @ [q]) [q] = H"
proof (rule Trim_quoted)
  show "H = [] \<or> (hd H \<noteq> q \<and> last H \<noteq> q)"
  proof (cases "H = []")
    case True
    then show ?thesis by simp
  next
    case False
    then have "hd H \<in> set H" "last H \<in> set H" by simp_all
    with assms show ?thesis by auto
  qed
qed

lemma getSignatureComponents_serialized:
  assumes K: "K \<noteq> []" "CHR '','' \<notin> set K" "hd K \<noteq> CHR 0x22" "last K \<noteq> CHR 0x22"
    and A: "CHR '','' \<notin> set A"
    and L: "L \<noteq> []"
      "\<forall>x \<in> set L. CHR '','' \<notin> set x \<and> CHR '' '' \<notin> set x \<and> CHR 0x22 \<notin> set x"
    and E: "E \<noteq> []" "CHR '','' \<notin> set E" "CHR 0x22 \<notin> set E"
  shows "getSignatureComponents
           (''keyId='' @ [CHR 0x22] @ K @ [CHR 0x22] @
            '',algorithm='' @ [CHR 0x22] @ A @ [CHR 0x22] @
            '',headers='' @ [CHR 0x22] @ Join L '' '' @ [CHR 0x22] @
            '',signature='' @ [CHR 0x22] @ E @ [CHR 0x22]) = Inr (K, E, L)"
proof -
  define H where "H = Join L '' ''"
  define t1 where "t1 = ''keyId'' @ CHR ''='' # (CHR 0x22 # K @ [CHR 0x22])"
  define t2 where "t2 = ''algorithm'' @ CHR ''='' # (CHR 0x22 # A @ [CHR 0x22])"
  define t3 where "t3 = ''headers'' @ CHR ''='' # (CHR 0x22 # H @ [CHR 0x22])"
  define t4 where "t4 = ''signature'' @ CHR ''='' # (CHR 0x22 # E @ [CHR 0x22])"
  have Hset: "set H \<subseteq> \<Union> (set ` set L) \<union> {CHR '' ''}"
    unfolding H_def using set_Join[of L "'' ''"] by simp
  have Hc: "CHR '','' \<notin> set H" and Hq: "CHR 0x22 \<notin> set H"
    using Hset L(2) by auto
  have whole: "''keyId='' @ [CHR 0x22] @ K @ [CHR 0x22] @
            '',algorithm='' @ [CHR 0x22] @ A @ [CHR 0x22] @
            '',headers='' @ [CHR 0x22] @ Join L '' '' @ [CHR 0x22] @
            '',signature='' @ [CHR 0x22] @ E @ [CHR 0x22] =
          t1 @ CHR '','' # (t2 @ CHR '','' # (t3 @ CHR '','' # t4))"
    by (simp add: t1_def t2_def t3_def t4_def H_def)
  have c1: "CHR '','' \<notin> set t1" using K(2) by (simp add: t1_def)
  have c2: "CHR '','' \<notin> set t2" using A by (simp add: t2_def)
  have c3: "CHR '','' \<notin> set t3" using Hc by (simp add: t3_def)
  have c4: "CHR '','' \<notin> set t4" using E(2) by (simp add: t4_def)
  have sp: "Split (t1 @ CHR '','' # (t2 @ CHR '','' # (t3 @ CHR '','' # t4))) (CHR '','') =
              [t1, t2, t3, t4]"
    by (simp add: Split_sep_first[OF c1] Split_sep_first[OF c2] Split_sep_first[OF c3]
        Split_no_sep[OF c4])
  have n1: "CHR ''='' \<notin> set ''keyId''" and n2: "CHR ''='' \<notin> set ''algorithm''"
    and n3: "CHR ''='' \<notin> set ''headers''" and n4: "CHR ''='' \<notin> set ''signature''"
    by simp_all
  have s1: "\<And>ps k g h. paramsLoop (t1 # ps) (k, g, h) = paramsLoop ps (K, g, h)"
    unfolding t1_def paramsLoop_step[OF token_parts(3)[OF n1]] Let_def
      token_parts(1)[OF n1] token_parts(2)[OF n1] Trim_quoted[of K "CHR 0x22", OF disjI2, OF conjI, OF K(3) K(4)]
    by simp
  have s2: "\<And>ps k g h. paramsLoop (t2 # ps) (k, g, h) = paramsLoop ps (k, g, h)"
    unfolding t2_def paramsLoop_step[OF token_parts(3)[OF n2]] Let_def
      token_parts(1)[OF n2] token_parts(2)[OF n2]
    by simp
  have s3: "\<And>ps k g h. paramsLoop (t3 # ps) (k, g, h) = paramsLoop ps (k, g, Split H (CHR '' ''))"
    unfolding t3_def paramsLoop_step[OF token_parts(3)[OF n3]] Let_def
      token_parts(1)[OF n3] token_parts(2)[OF n3] no_quote_Trim[OF Hq]
    by simp
  have s4: "\<And>ps k g h. paramsLoop (t4 # ps) (k, g, h) = paramsLoop ps (k, E, h)"
    unfolding t4_def paramsLoop_step[OF token_parts(3)[OF n4]] Let_def
      token_parts(1)[OF n4] token_parts(2)[OF n4] no_quote_Trim[OF E(3)]
    by simp
  have sj: "Split H (CHR '' '') = L"
    unfolding H_def using Split_Join[of L "CHR '' ''"] L by simp
  have "paramsLoop [t1, t2, t3, t4] ([], [], []) = Inr (K, E, L)"
    unfolding s1 s2 s3 s4 sj by simp
  then show ?thesis
    unfolding whole getSignatureComponents_def Let_def parameterSeparater_def sp
    using K(1) E(1) L(1) by simp
qed

lemma signatureStringLoop_lower:
  "signatureStringLoop values f (map ToLower inc) len n b =
   signatureStringLoop values f inc len n b"
  by (induction inc arbitrary: n b) (auto simp: Let_def ToLower_idem split: option.splits)

lemma signatureStringLoop_other_key:
  "values T = None \<Longrightarrow> signatureStringLoop values f inc len n b = Inr s \<Longrightarrow>
   signatureStringLoop (values(T \<mapsto> x)) f inc len n b = Inr s"
proof (induction inc arbitrary: n b)
  case Nil
  then show ?case by simp
next
  case (Cons i inc)
  show ?case
  proof (cases "ToLower i = RequestTarget")
    case True
    with Cons.prems Cons.IH[OF Cons.prems(1)] show ?thesis
      by (auto simp: Let_def split: option.splits)
  next
    case False
    show ?thesis
    proof (cases "values (CanonicalMIMEHeaderKey (ToLower i))")
      case None
      with False Cons.prems(2) show ?thesis by (simp add: Let_def)
    next
      case (Some hv)
      with Cons.prems(1) have ne: "CanonicalMIMEHeaderKey (ToLower i) \<noteq> T" by auto
      from False Some ne Cons.prems(2) Cons.IH[OF Cons.prems(1)] show ?thesis
        by (simp add: Let_def)
    qed
  qed
qed

lemma signatureString_after_signing:
  assumes s: "signatureString h hs f = Inr s"
    and fresh: "h T = None"
    and prov: "\<And>b. snd (f' b) = snd (f b)"
  shows "signatureString (h(T \<mapsto> x)) (map ToLower (if hs = [] then defaultHeaders else hs)) f'
           = Inr s"
proof -
  define hs' where "hs' = (if hs = [] then defaultHeaders else hs)"
  have ne: "hs' \<noteq> []" by (simp add: hs'_def defaultHeaders_def)
  from s have 1: "signatureStringLoop h f hs' (length hs') 0 [] = Inr s"
    by (simp add: signatureString_def hs'_def Let_def)
  have 2: "signatureStringLoop (h(T \<mapsto> x)) f hs' (length hs') 0 [] = Inr s"
    using signatureStringLoop_other_key[OF fresh 1] .
  have 3: "signatureStringLoop (h(T \<mapsto> x)) f' hs' (length hs') 0 [] = Inr s"
    using signatureStringLoop_provider[of f' f, OF prov] 2 by simp
  have "signatureString (h(T \<mapsto> x)) (map ToLower hs') f' =
          signatureStringLoop (h(T \<mapsto> x)) f' (map ToLower hs') (length hs') 0 []"
    using ne by (simp add: signatureString_def Let_def)
  also have "\<dots> = Inr s" unfolding signatureStringLoop_lower using 3 .
  finally show ?thesis unfolding hs'_def .
qed

lemma Canonical_schemes:
  "CanonicalMIMEHeaderKey Signature = ''Signature''"
  "CanonicalMIMEHeaderKey Authorization = ''Authorization''"
  by code_simp+

lemma Contains_prefix: "Contains (p @ rest) p"
proof -
  have "p @ rest = [] @ p @ rest" by simp
  then show ?thesis unfolding Contains_iff by blast
qed

lemma getSignatureScheme_after_signing:
  assumes fresh: "h (CanonicalMIMEHeaderKey t) = None"
    and slot:
      "(CanonicalMIMEHeaderKey t = ''Signature'' \<and>
          \<not> (Contains (Get h Authorization) ''keyId'' \<or>
             Contains (Get h Authorization) ''headers'' \<or>
             Contains (Get h Authorization) ''signature'')) \<or>
       (CanonicalMIMEHeaderKey t = ''Authorization'' \<and>
          \<not> (Contains (Get h Signature) ''keyId'' \<or>
             Contains (Get h Signature) ''headers'' \<or>
             Contains (Get h Signature) ''signature''))"
  shows "getSignatureScheme (Add h t (''keyId'' @ rest)) = Inr (''keyId'' @ rest)"
proof -
  have c: "Contains (''keyId'' @ rest) ''keyId''" by (rule Contains_prefix)
  from slot show ?thesis
  proof
    assume a: "CanonicalMIMEHeaderKey t = ''Signature'' \<and>
          \<not> (Contains (Get h Authorization) ''keyId'' \<or>
             Contains (Get h Authorization) ''headers'' \<or>
             Contains (Get h Authorization) ''signature'')"
    have g1: "Get (Add h t (''keyId'' @ rest)) Signature = ''keyId'' @ rest"
      using a fresh by (simp add: Get_def Add_def Let_def Canonical_schemes)
    have g2: "Get (Add h t (''keyId'' @ rest)) Authorization = Get h Authorization"
      using a by (simp add: Get_def Add_def Let_def Canonical_schemes)
    show ?thesis
      unfolding getSignatureScheme_def Let_def g1 g2 keyIdParameter_def headersParameter_def
        signatureParameter_def
      using a c by simp
  next
    assume a: "CanonicalMIMEHeaderKey t = ''Authorization'' \<and>
          \<not> (Contains (Get h Signature) ''keyId'' \<or>
             Contains (Get h Signature) ''headers'' \<or>
             Contains (Get h Signature) ''signature'')"
    have g1: "Get (Add h t (''keyId'' @ rest)) Authorization = ''keyId'' @ rest"
      using a fresh by (simp add: Get_def Add_def Let_def Canonical_schemes)
    have g2: "Get (Add h t (''keyId'' @ rest)) Signature = Get h Signature"
      using a by (simp add: Get_def Add_def Let_def Canonical_schemes)
    show ?thesis
      unfolding getSignatureScheme_def Let_def g1 g2 keyIdParameter_def headersParameter_def
        signatureParameter_def
      using a c by simp
  qed
qed

lemma lowerByte_keeps_delimiters:
  "lowerByte c = CHR '','' \<longleftrightarrow> c = CHR '',''"
  "lowerByte c = CHR '' '' \<longleftrightarrow> c = CHR '' ''"
  "lowerByte c = CHR 0x22 \<longleftrightarrow> c = CHR 0x22"
  unfolding char_eq_iff[of _ "CHR '',''"] char_eq_iff[of _ "CHR '' ''"]
    char_eq_iff[of _ "CHR 0x22"]
  by (simp_all add: of_char_lowerByte)

lemma ToLower_keeps_delimiters:
  "CHR '','' \<in> set (ToLower x) \<longleftrightarrow> CHR '','' \<in> set x"
  "CHR '' '' \<in> set (ToLower x) \<longleftrightarrow> CHR '' '' \<in> set x"
  "CHR 0x22 \<in> set (ToLower x) \<longleftrightarrow> CHR 0x22 \<in> set x"
  using lowerByte_keeps_delimiters
  by (induction x) (auto simp: ToLower_def eq_commute[of "CHR '',''"]
      eq_commute[of "CHR '' ''"] eq_commute[of "CHR 0x22"])

lemma newVerifier_after_signing:
  assumes K: "K \<noteq> []" "CHR '','' \<notin> set K" "hd K \<noteq> CHR 0x22" "last K \<noteq> CHR 0x22"
    and A: "CHR '','' \<notin> set A"
    and names: "\<forall>x \<in> set hs. CHR '','' \<notin> set x \<and> CHR '' '' \<notin> set x \<and> CHR 0x22 \<notin> set x"
    and sg: "sg \<noteq> []"
    and fresh: "h (CanonicalMIMEHeaderKey t) = None"
    and slot:
      "(CanonicalMIMEHeaderKey t = ''Signature'' \<and>
          \<not> (Contains (Get h Authorization) ''keyId'' \<or>
             Contains (Get h Authorization) ''headers'' \<or>
             Contains (Get h Authorization) ''signature'')) \<or>
       (CanonicalMIMEHeaderKey t = ''Authorization'' \<and>
          \<not> (Contains (Get h Signature) ''keyId'' \<or>
             Contains (Get h Signature) ''headers'' \<or>
             Contains (Get h Signature) ''signature''))"
  shows "\<exists>x. setSignatureHeader h t K A (EncodeToString sg) hs =
               h(CanonicalMIMEHeaderKey t \<mapsto> x) \<and>
             newVerifier (setSignatureHeader h t K A (EncodeToString sg) hs) fn =
               Inr \<lparr>v_header = h(CanonicalMIMEHeaderKey t \<mapsto> x), v_kId = K,
                    v_signature = EncodeToString sg,
                    v_headers = map ToLower (if hs = [] then defaultHeaders else hs),
                    v_sigStringFn = fn\<rparr>"
proof -
  define hs' where "hs' = (if hs = [] then defaultHeaders else hs)"
  define E where "E = EncodeToString sg"
  define rest where "rest = ''='' @ [CHR 0x22] @ K @ [CHR 0x22] @
        '',algorithm='' @ [CHR 0x22] @ A @ [CHR 0x22] @
        '',headers='' @ [CHR 0x22] @ Join (map ToLower hs') '' '' @ [CHR 0x22] @
        '',signature='' @ [CHR 0x22] @ E @ [CHR 0x22]"
  have ne: "hs' \<noteq> []" by (simp add: hs'_def defaultHeaders_def)
  have names': "\<forall>x \<in> set hs'. CHR '','' \<notin> set x \<and> CHR '' '' \<notin> set x \<and> CHR 0x22 \<notin> set x"
    using names by (simp add: hs'_def defaultHeaders_def dateHeader_def)
  have L: "map ToLower hs' \<noteq> []"
    "\<forall>x \<in> set (map ToLower hs'). CHR '','' \<notin> set x \<and> CHR '' '' \<notin> set x \<and> CHR 0x22 \<notin> set x"
    using ne names' by (simp_all add: ToLower_keeps_delimiters)
  have Eprops: "E \<noteq> []" "CHR '','' \<notin> set E" "CHR 0x22 \<notin> set E"
    unfolding E_def using sg by (simp_all add: EncodeToString_nonempty EncodeToString_no_special)
  have "setSignatureHeader h t K A E hs = setSignatureHeader h t K A E hs'"
    by (simp add: hs'_def setSignatureHeader_def)
  also have "\<dots> = Add h t (''keyId'' @ rest)"
    unfolding setSignatureHeader_value[OF ne] rest_def by simp
  finally have set: "setSignatureHeader h t K A E hs = Add h t (''keyId'' @ rest)" .
  have scheme: "getSignatureScheme (Add h t (''keyId'' @ rest)) = Inr (''keyId'' @ rest)"
    using getSignatureScheme_after_signing[OF fresh slot] .
  have comps: "getSignatureComponents (''keyId'' @ rest) = Inr (K, E, map ToLower hs')"
    using getSignatureComponents_serialized[OF K A L Eprops] by (simp add: rest_def)
  have upd: "Add h t (''keyId'' @ rest) = h(CanonicalMIMEHeaderKey t \<mapsto> [''keyId'' @ rest])"
    using fresh by (simp add: Add_def Let_def)
  show ?thesis
    unfolding E_def[symmetric] hs'_def[symmetric] set upd[symmetric]
    using scheme comps upd by (auto simp: newVerifier_def)
qed

lemma round_trip_mac:
  assumes law: "\<And>data sg. macSign (mac_m m) data key = Inr sg \<Longrightarrow>
                  sg \<noteq> [] \<and> macEqual (mac_m m) data sg key = Inr True"
    and reg: "signerFromString reg algo = Inl e0" "macerFromString reg algo = Inr (mac_m m)"
    and K: "pubKeyId \<noteq> []" "CHR '','' \<notin> set pubKeyId" "hd pubKeyId \<noteq> CHR 0x22"
      "last pubKeyId \<noteq> CHR 0x22"
    and A: "CHR '','' \<notin> set (macString (mac_m m))"
    and names: "\<forall>x \<in> set (mac_headers m).
                  CHR '','' \<notin> set x \<and> CHR '' '' \<notin> set x \<and> CHR 0x22 \<notin> set x"
    and fresh: "Header r (CanonicalMIMEHeaderKey (mac_targetHeader m)) = None"
    and slot:
      "(CanonicalMIMEHeaderKey (mac_targetHeader m) = ''Signature'' \<and>
          \<not> (Contains (Get (Header r) Authorization) ''keyId'' \<or>
             Contains (Get (Header r) Authorization) ''headers'' \<or>
             Contains (Get (Header r) Authorization) ''signature'')) \<or>
       (CanonicalMIMEHeaderKey (mac_targetHeader m) = ''Authorization'' \<and>
          \<not> (Contains (Get (Header r) Signature) ''keyId'' \<or>
             Contains (Get (Header r) Signature) ''headers'' \<or>
             Contains (Get (Header r) Signature) ''signature''))"
    and sign: "macSigner_SignRequest m (Bytes key) pubKeyId r = (None, r')"
  shows "\<exists>v. NewVerifier r' = Inr v \<and> KeyId v = pubKeyId \<and>
             Verify reg v (Bytes key) algo = None"
proof -
  from sign obtain s where ss: "signatureString (Header r) (mac_headers m) (addRequestTarget r) = Inr s"
    by (auto simp: macSigner_SignRequest_def macSigner_signatureString_def split: sum.splits)
  from sign ss obtain sg where ms: "macSign (mac_m m) s key = Inr sg"
    by (auto simp: macSigner_SignRequest_def macSigner_signatureString_def
        macSigner_signSignature_def split: sum.splits)
  from sign ss ms have r': "r' = r\<lparr>Header := setSignatureHeader (Header r) (mac_targetHeader m)
        pubKeyId (macString (mac_m m)) (EncodeToString sg) (mac_headers m)\<rparr>"
    by (simp add: macSigner_SignRequest_def macSigner_signatureString_def
        macSigner_signSignature_def)
  from law[OF ms] have sg: "sg \<noteq> []" and eq: "macEqual (mac_m m) s sg key = Inr True" by auto
  define fn where "fn = (\<lambda>h toInclude. signatureString h toInclude (addRequestTarget r'))"
  obtain x where hx: "setSignatureHeader (Header r) (mac_targetHeader m)
        pubKeyId (macString (mac_m m)) (EncodeToString sg) (mac_headers m) =
        (Header r)(CanonicalMIMEHeaderKey (mac_targetHeader m) \<mapsto> x)"
    and nv: "newVerifier (setSignatureHeader (Header r) (mac_targetHeader m)
        pubKeyId (macString (mac_m m)) (EncodeToString sg) (mac_headers m)) fn =
      Inr \<lparr>v_header = (Header r)(CanonicalMIMEHeaderKey (mac_targetHeader m) \<mapsto> x),
           v_kId = pubKeyId, v_signature = EncodeToString sg,
           v_headers = map ToLower (if mac_headers m = [] then defaultHeaders else mac_headers m),
           v_sigStringFn = fn\<rparr>"
    using newVerifier_after_signing[OF K A names sg fresh slot, of fn] by blast
  define v where "v = \<lparr>v_header = (Header r)(CanonicalMIMEHeaderKey (mac_targetHeader m) \<mapsto> x),
           v_kId = pubKeyId, v_signature = EncodeToString sg,
           v_headers = map ToLower (if mac_headers m = [] then defaultHeaders else mac_headers m),
           v_sigStringFn = fn\<rparr>"
  have 1: "NewVerifier r' = Inr v"
    unfolding NewVerifier_def fn_def[symmetric] v_def using nv by (simp add: r')
  have 2: "KeyId v = pubKeyId" by (simp add: KeyId_def v_def)
  have str: "v_sigStringFn v (v_header v) (v_headers v) = Inr s"
    unfolding v_def fn_def
    using signatureString_after_signing[OF ss fresh, of "addRequestTarget r'" x]
    by (simp add: addRequestTarget_no_error)
  have 3: "Verify reg v (Bytes key) algo = None"
    unfolding Verify_def reg macVerify_def
    by (simp add: str eq) (simp add: v_def DecodeString_EncodeToString eq)
  from 1 2 3 show ?thesis by blast
qed

lemma round_trip_asymm:
  assumes law: "\<And>data sg. sigSign (asymm_s a) rnd priv data = Inr sg \<Longrightarrow>
                  sg \<noteq> [] \<and> sigVerify (asymm_s a) pub data sg = None"
    and reg: "signerFromString reg algo = Inr (asymm_s a)"
    and K: "pubKeyId \<noteq> []" "CHR '','' \<notin> set pubKeyId" "hd pubKeyId \<noteq> CHR 0x22"
      "last pubKeyId \<noteq> CHR 0x22"
    and A: "CHR '','' \<notin> set (sigString (asymm_s a))"
    and names: "\<forall>x \<in> set (asymm_headers a).
                  CHR '','' \<notin> set x \<and> CHR '' '' \<notin> set x \<and> CHR 0x22 \<notin> set x"
    and fresh: "Header r (CanonicalMIMEHeaderKey (asymm_targetHeader a)) = None"
    and slot:
      "(CanonicalMIMEHeaderKey (asymm_targetHeader a) = ''Signature'' \<and>
          \<not> (Contains (Get (Header r) Authorization) ''keyId'' \<or>
             Contains (Get (Header r) Authorization) ''headers'' \<or>
             Contains (Get (Header r) Authorization) ''signature'')) \<or>
       (CanonicalMIMEHeaderKey (asymm_targetHeader a) = ''Authorization'' \<and>
          \<not> (Contains (Get (Header r) Signature) ''keyId'' \<or>
             Contains (Get (Header r) Signature) ''headers'' \<or>
             Contains (Get (Header r) Signature) ''signature''))"
    and sign: "asymmSigner_SignRequest a rnd priv pubKeyId r = (None, r')"
  shows "\<exists>v. NewVerifier r' = Inr v \<and> KeyId v = pubKeyId \<and> Verify reg v pub algo = None"
proof -
  from sign obtain s
    where ss: "signatureString (Header r) (asymm_headers a) (addRequestTarget r) = Inr s"
    by (auto simp: asymmSigner_SignRequest_def asymmSigner_signatureString_def split: sum.splits)
  from sign ss obtain sg where ms: "sigSign (asymm_s a) rnd priv s = Inr sg"
    by (auto simp: asymmSigner_SignRequest_def asymmSigner_signatureString_def
        asymmSigner_signSignature_def split: sum.splits)
  from sign ss ms have r': "r' = r\<lparr>Header := setSignatureHeader (Header r) (asymm_targetHeader a)
        pubKeyId (sigString (asymm_s a)) (EncodeToString sg) (asymm_headers a)\<rparr>"
    by (simp add: asymmSigner_SignRequest_def asymmSigner_signatureString_def
        asymmSigner_signSignature_def)
  from law[OF ms] have sg: "sg \<noteq> []" and eq: "sigVerify (asymm_s a) pub s sg = None" by auto
  define fn where "fn = (\<lambda>h toInclude. signatureString h toInclude (addRequestTarget r'))"
  obtain x where hx: "setSignatureHeader (Header r) (asymm_targetHeader a)
        pubKeyId (sigString (asymm_s a)) (EncodeToString sg) (asymm_headers a) =
        (Header r)(CanonicalMIMEHeaderKey (asymm_targetHeader a) \<mapsto> x)"
    and nv: "newVerifier (setSignatureHeader (Header r) (asymm_targetHeader a)
        pubKeyId (sigString (asymm_s a)) (EncodeToString sg) (asymm_headers a)) fn =
      Inr \<lparr>v_header = (Header r)(CanonicalMIMEHeaderKey (asymm_targetHeader a) \<mapsto> x),
           v_kId = pubKeyId, v_signature = EncodeToString sg,
           v_headers = map ToLower (if asymm_headers a = [] then defaultHeaders
                                    else asymm_headers a),
           v_sigStringFn = fn\<rparr>"
    using newVerifier_after_signing[OF K A names sg fresh slot, of fn] by blast
  define v where "v = \<lparr>v_header = (Header r)(CanonicalMIMEHeaderKey (asymm_targetHeader a) \<mapsto> x),
           v_kId = pubKeyId, v_signature = EncodeToString sg,
           v_headers = map ToLower (if asymm_headers a = [] then defaultHeaders
                                    else asymm_headers a),
           v_sigStringFn = fn\<rparr>"
  have 1: "NewVerifier r' = Inr v"
    unfolding NewVerifier_def fn_def[symmetric] v_def using nv by (simp add: r')
  have 2: "KeyId v = pubKeyId" by (simp add: KeyId_def v_def)
  have str: "v_sigStringFn v (v_header v) (v_headers v) = Inr s"
    unfolding v_def fn_def
    using signatureString_after_signing[OF ss fresh, of "addRequestTarget r'" x]
    by (simp add: addRequestTarget_no_error)
  have 3: "Verify reg v pub algo = None"
    unfolding Verify_def reg asymmVerify_def
    by (simp add: str eq) (simp add: v_def DecodeString_EncodeToString eq)
  from 1 2 3 show ?thesis by blast
qed

text \<open>
  Claim C2, as stated for every message and key identifier, fails: the parameters are
  written without any escaping, so a key identifier with a comma is cut into two tokens
  when the header is parsed. Signing the example request with the key identifier \<open>a,b\<close>
  succeeds, and constructing the verifier from the signed request fails with the
  malformed-parameter error for the token \<open>b"\<close>. It fails on a message that is already
  signed, too: the new value is appended, the verifier reads the first value of the header,
  and so it reports the key identifier of the earlier signature and rejects the secret of
  the later one. The capability used here satisfies the law that the code of signed data
  compares equal, and is registered under its name.
\<close>

theorem C2_comma_in_keyId_counterexample:
  "fst (macSigner_SignRequest exampleMacSigner (Bytes ''secret'') ''a,b'' exampleRequest) = None \<and>
   macerFromString exampleRegistry ''example-mac'' = Inr (mac_m exampleMacSigner) \<and>
   (case NewVerifier (snd (macSigner_SignRequest exampleMacSigner (Bytes ''secret'') ''a,b''
                             exampleRequest)) of
      Inl err \<Rightarrow> err = MalformedParameter [''b'' @ [CHR 0x22]]
    | Inr v \<Rightarrow> False) \<and>
   fst (macSigner_SignRequest exampleMacSigner (Bytes ''secret'') ''key-2''
          exampleSignedRequest) = None \<and>
   (case NewVerifier (snd (macSigner_SignRequest exampleMacSigner (Bytes ''secret'') ''key-2''
                             exampleSignedRequest)) of
      Inl err \<Rightarrow> False
    | Inr v \<Rightarrow> KeyId v = ''key-1'' \<and>
              Verify exampleRegistry v (Bytes ''secret'') ''example-mac'' =
                Some InvalidHttpSignature)"
proof (intro conjI)
  show "fst (macSigner_SignRequest exampleMacSigner (Bytes ''secret'') ''a,b'' exampleRequest) = None"
    by code_simp
  show "macerFromString exampleRegistry ''example-mac'' = Inr (mac_m exampleMacSigner)"
    by (simp add: exampleRegistry_def exampleMacSigner_def)
  show "case NewVerifier (snd (macSigner_SignRequest exampleMacSigner (Bytes ''secret'') ''a,b''
                             exampleRequest)) of
      Inl err \<Rightarrow> err = MalformedParameter [''b'' @ [CHR 0x22]]
    | Inr v \<Rightarrow> False"
    by code_simp
  show "fst (macSigner_SignRequest exampleMacSigner (Bytes ''secret'') ''key-2''
          exampleSignedRequest) = None"
    by code_simp
  show "case NewVerifier (snd (macSigner_SignRequest exampleMacSigner (Bytes ''secret'') ''key-2''
                             exampleSignedRequest)) of
      Inl err \<Rightarrow> False
    | Inr v \<Rightarrow> KeyId v = ''key-1'' \<and>
              Verify exampleRegistry v (Bytes ''secret'') ''example-mac'' =
                Some InvalidHttpSignature"
    by code_simp
qed

text \<open>
  Claim C2, amended. Take a key identifier that is not empty, has no comma and neither
  starts nor ends with a double quote; a capability whose signatures are never empty and
  verify against the data they sign under the key pair (for a MAC: the same secret), whose
  name has no comma, and which the registry resolves from the algorithm name (for a MAC:
  the name resolves to no asymmetric signer); header names without comma, space or double
  quote; and a request that has no value yet under the signature-scheme header, which is
  \<open>Signature\<close> or \<open>Authorization\<close>, and whose other slot carries no signature
  parameters. Then, whenever \<open>SignRequest\<close> succeeds, constructing a verifier from the
  signed request succeeds, its \<open>KeyId\<close> is the key identifier passed to \<open>SignRequest\<close>,
  and \<open>Verify\<close> with the matching public key succeeds. The first conjunct is the MAC
  signer, the second the asymmetric signer.
\<close>

theorem C2_round_trip:
  assumes "pubKeyId \<noteq> []" and "CHR '','' \<notin> set pubKeyId"
    and "hd pubKeyId \<noteq> CHR 0x22" and "last pubKeyId \<noteq> CHR 0x22"
  shows
  "((\<forall>data sg. macSign (mac_m m) data key = Inr sg \<longrightarrow>
        sg \<noteq> [] \<and> macEqual (mac_m m) data sg key = Inr True) \<and>
    signerFromString reg algo = Inl e0 \<and> macerFromString reg algo = Inr (mac_m m) \<and>
    CHR '','' \<notin> set (macString (mac_m m)) \<and>
    (\<forall>x \<in> set (mac_headers m).
        CHR '','' \<notin> set x \<and> CHR '' '' \<notin> set x \<and> CHR 0x22 \<notin> set x) \<and>
    Header r (CanonicalMIMEHeaderKey (mac_targetHeader m)) = None \<and>
    ((CanonicalMIMEHeaderKey (mac_targetHeader m) = ''Signature'' \<and>
        \<not> (Contains (Get (Header r) Authorization) ''keyId'' \<or>
           Contains (Get (Header r) Authorization) ''headers'' \<or>
           Contains (Get (Header r) Authorization) ''signature'')) \<or>
     (CanonicalMIMEHeaderKey (mac_targetHeader m) = ''Authorization'' \<and>
        \<not> (Contains (Get (Header r) Signature) ''keyId'' \<or>
           Contains (Get (Header r) Signature) ''headers'' \<or>
           Contains (Get (Header r) Signature) ''signature''))) \<and>
    macSigner_SignRequest m (Bytes key) pubKeyId r = (None, r')
    \<longrightarrow> (\<exists>v. NewVerifier r' = Inr v \<and> KeyId v = pubKeyId \<and>
             Verify reg v (Bytes key) algo = None)) \<and>
   ((\<forall>data sg. sigSign (asymm_s a) rnd priv data = Inr sg \<longrightarrow>
        sg \<noteq> [] \<and> sigVerify (asymm_s a) pub data sg = None) \<and>
    signerFromString reg algo' = Inr (asymm_s a) \<and>
    CHR '','' \<notin> set (sigString (asymm_s a)) \<and>
    (\<forall>x \<in> set (asymm_headers a).
        CHR '','' \<notin> set x \<and> CHR '' '' \<notin> set x \<and> CHR 0x22 \<notin> set x) \<and>
    Header r (CanonicalMIMEHeaderKey (asymm_targetHeader a)) = None \<and>
    ((CanonicalMIMEHeaderKey (asymm_targetHeader a) = ''Signature'' \<and>
        \<not> (Contains (Get (Header r) Authorization) ''keyId'' \<or>
           Contains (Get (Header r) Authorization) ''headers'' \<or>
           Contains (Get (Header r) Authorization) ''signature'')) \<or>
     (CanonicalMIMEHeaderKey (asymm_targetHeader a) = ''Authorization'' \<and>
        \<not> (Contains (Get (Header r) Signature) ''keyId'' \<or>
           Contains (Get (Header r) Signature) ''headers'' \<or>
           Contains (Get (Header r) Signature) ''signature''))) \<and>
    asymmSigner_SignRequest a rnd priv pubKeyId r = (None, r'')
    \<longrightarrow> (\<exists>v. NewVerifier r'' = Inr v \<and> KeyId v = pubKeyId \<and>
             Verify reg v pub algo' = None))"
proof (intro conjI impI)
  assume h: "(\<forall>data sg. macSign (mac_m m) data key = Inr sg \<longrightarrow>
        sg \<noteq> [] \<and> macEqual (mac_m m) data sg key = Inr True) \<and>
    signerFromString reg algo = Inl e0 \<and> macerFromString reg algo = Inr (mac_m m) \<and>
    CHR '','' \<notin> set (macString (mac_m m)) \<and>
    (\<forall>x \<in> set (mac_headers m).
        CHR '','' \<notin> set x \<and> CHR '' '' \<notin> set x \<and> CHR 0x22 \<notin> set x) \<and>
    Header r (CanonicalMIMEHeaderKey (mac_targetHeader m)) = None \<and>
    ((CanonicalMIMEHeaderKey (mac_targetHeader m) = ''Signature'' \<and>
        \<not> (Contains (Get (Header r) Authorization) ''keyId'' \<or>
           Contains (Get (Header r) Authorization) ''headers'' \<or>
           Contains (Get (Header r) Authorization) ''signature'')) \<or>
     (CanonicalMIMEHeaderKey (mac_targetHeader m) = ''Authorization'' \<and>
        \<not> (Contains (Get (Header r) Signature) ''keyId'' \<or>
           Contains (Get (Header r) Signature) ''headers'' \<or>
           Contains (Get (Header r) Signature) ''signature''))) \<and>
    macSigner_SignRequest m (Bytes key) pubKeyId r = (None, r')"
  have law: "\<And>data sg. macSign (mac_m m) data key = Inr sg \<Longrightarrow>
                  sg \<noteq> [] \<and> macEqual (mac_m m) data sg key = Inr True"
    using h by blast
  show "\<exists>v. NewVerifier r' = Inr v \<and> KeyId v = pubKeyId \<and> Verify reg v (Bytes key) algo = None"
    by (rule round_trip_mac[OF law _ _ assms]) (use h in blast)+
next
  assume h: "(\<forall>data sg. sigSign (asymm_s a) rnd priv data = Inr sg \<longrightarrow>
        sg \<noteq> [] \<and> sigVerify (asymm_s a) pub data sg = None) \<and>
    signerFromString reg algo' = Inr (asymm_s a) \<and>
    CHR '','' \<notin> set (sigString (asymm_s a)) \<and>
    (\<forall>x \<in> set (asymm_headers a).
        CHR '','' \<notin> set x \<and> CHR '' '' \<notin> set x \<and> CHR 0x22 \<notin> set x) \<and>
    Header r (CanonicalMIMEHeaderKey (asymm_targetHeader a)) = None \<and>
    ((CanonicalMIMEHeaderKey (asymm_targetHeader a) = ''Signature'' \<and>
        \<not> (Contains (Get (Header r) Authorization) ''keyId'' \<or>
           Contains (Get (Header r) Authorization) ''headers'' \<or>
           Contains (Get (Header r) Authorization) ''signature'')) \<or>
     (CanonicalMIMEHeaderKey (asymm_targetHeader a) = ''Authorization'' \<and>
        \<not> (Contains (Get (Header r) Signature) ''keyId'' \<or>
           Contains (Get (Header r) Signature) ''headers'' \<or>
           Contains (Get (Header r) Signature) ''signature''))) \<and>
    asymmSigner_SignRequest a rnd priv pubKeyId r = (None, r'')"
  have law: "\<And>data sg. sigSign (asymm_s a) rnd priv data = Inr sg \<Longrightarrow>
                  sg \<noteq> [] \<and> sigVerify (asymm_s a) pub data sg = None"
    using h by blast
  show "\<exists>v. NewVerifier r'' = Inr v \<and> KeyId v = pubKeyId \<and> Verify reg v pub algo' = None"
    by (rule round_trip_asymm[OF law _ assms]) (use h in blast)+
qed

theorem C2_round_trip_witness:
  "(\<exists>v. NewVerifier (snd (macSigner_SignRequest exampleMacSigner (Bytes ''secret'') ''key-1''
                            exampleRequest)) = Inr v \<and>
        KeyId v = ''key-1'' \<and>
        Verify exampleRegistry v (Bytes ''secret'') ''example-mac'' = None) \<and>
   (\<exists>v. NewVerifier (snd (asymmSigner_SignRequest exampleAsymmSigner ''entropy'' (OtherKey 7)
                            ''key-1'' exampleRequest)) = Inr v \<and>
        KeyId v = ''key-1'' \<and>
        Verify exampleRegistry v (OtherKey 7) ''example-sig'' = None)"
proof -
  have k: "''key-1'' \<noteq> []" "CHR '','' \<notin> set ''key-1''" "hd ''key-1'' \<noteq> CHR 0x22"
    "last ''key-1'' \<noteq> CHR 0x22" by simp_all
  define r' where
    "r' = snd (macSigner_SignRequest exampleMacSigner (Bytes ''secret'') ''key-1'' exampleRequest)"
  define r'' where
    "r'' = snd (asymmSigner_SignRequest exampleAsymmSigner ''entropy'' (OtherKey 7) ''key-1''
                  exampleRequest)"
  have m1: "\<forall>data sg. macSign (mac_m exampleMacSigner) data ''secret'' = Inr sg \<longrightarrow>
        sg \<noteq> [] \<and> macEqual (mac_m exampleMacSigner) data sg ''secret'' = Inr True"
    by (auto simp: exampleMacSigner_def exampleMacer_def)
  have m2: "signerFromString exampleRegistry ''example-mac'' =
              Inl (NoCryptoImplementation ''example-mac'')"
    "macerFromString exampleRegistry ''example-mac'' = Inr (mac_m exampleMacSigner)"
    by (simp_all add: exampleRegistry_def exampleMacSigner_def)
  have m3: "CHR '','' \<notin> set (macString (mac_m exampleMacSigner))"
    by (simp add: exampleMacSigner_def exampleMacer_def)
  have m4: "\<forall>x \<in> set (mac_headers exampleMacSigner).
        CHR '','' \<notin> set x \<and> CHR '' '' \<notin> set x \<and> CHR 0x22 \<notin> set x"
    by (simp add: exampleMacSigner_def)
  have m5: "CanonicalMIMEHeaderKey (mac_targetHeader exampleMacSigner) = ''Signature''"
    by code_simp
  have fresh: "Header exampleRequest ''Signature'' = None" by (simp add: exampleRequest_def)
  have other: "\<not> (Contains (Get (Header exampleRequest) Authorization) ''keyId'' \<or>
           Contains (Get (Header exampleRequest) Authorization) ''headers'' \<or>
           Contains (Get (Header exampleRequest) Authorization) ''signature'')"
    by code_simp
  have m6: "fst (macSigner_SignRequest exampleMacSigner (Bytes ''secret'') ''key-1''
                   exampleRequest) = None" by code_simp
  have m7: "macSigner_SignRequest exampleMacSigner (Bytes ''secret'') ''key-1'' exampleRequest =
              (None, r')"
    unfolding r'_def using m6 by (simp add: prod_eq_iff)
  have mac: "\<exists>v. NewVerifier r' = Inr v \<and> KeyId v = ''key-1'' \<and>
        Verify exampleRegistry v (Bytes ''secret'') ''example-mac'' = None"
    using C2_round_trip[OF k, where m = exampleMacSigner and key = "''secret''"
        and reg = exampleRegistry and algo = "''example-mac''" and r = exampleRequest
        and r' = r'] m1 m2 m3 m4 m5 fresh other m7
    by simp
  have a1: "\<forall>data sg. sigSign (asymm_s exampleAsymmSigner) ''entropy'' (OtherKey 7) data = Inr sg
        \<longrightarrow> sg \<noteq> [] \<and> sigVerify (asymm_s exampleAsymmSigner) (OtherKey 7) data sg = None"
    by (auto simp: exampleAsymmSigner_def exampleSigner_def)
  have a2: "signerFromString exampleRegistry ''example-sig'' = Inr (asymm_s exampleAsymmSigner)"
    by (simp add: exampleRegistry_def exampleAsymmSigner_def)
  have a3: "CHR '','' \<notin> set (sigString (asymm_s exampleAsymmSigner))"
    by (simp add: exampleAsymmSigner_def exampleSigner_def)
  have a4: "\<forall>x \<in> set (asymm_headers exampleAsymmSigner).
        CHR '','' \<notin> set x \<and> CHR '' '' \<notin> set x \<and> CHR 0x22 \<notin> set x"
    by (simp add: exampleAsymmSigner_def)
  have a5: "CanonicalMIMEHeaderKey (asymm_targetHeader exampleAsymmSigner) = ''Signature''"
    by code_simp
  have a6: "fst (asymmSigner_SignRequest exampleAsymmSigner ''entropy'' (OtherKey 7) ''key-1''
                   exampleRequest) = None" by code_simp
  have a7: "asymmSigner_SignRequest exampleAsymmSigner ''entropy'' (OtherKey 7) ''key-1''
              exampleRequest = (None, r'')"
    unfolding r''_def using a6 by (simp add: prod_eq_iff)
  have asymm: "\<exists>v. NewVerifier r'' = Inr v \<and> KeyId v = ''key-1'' \<and>
        Verify exampleRegistry v (OtherKey 7) ''example-sig'' = None"
    using C2_round_trip[OF k, where a = exampleAsymmSigner and rnd = "''entropy''"
        and priv = "OtherKey 7" and pub = "OtherKey 7"
        and reg = exampleRegistry and algo' = "''example-sig''" and r = exampleRequest
        and r'' = r''] a1 a2 a3 a4 a5 fresh other a7
    by simp
  from mac asymm show ?thesis unfolding r'_def r''_def by blast
qed

end
